theory Spec2Isabelle
  imports Complex_Main
begin

section \<open>Values, errors and the numpy interface\<close>

text \<open>
  The functions of \<^verbatim>\<open>cashflows/basics.py\<close> take Python numbers or lists of numbers.
  A float is a finite number or one of \<^verbatim>\<open>nan\<close>, \<^verbatim>\<open>inf\<close>, \<^verbatim>\<open>-inf\<close>. Finite floats are
  idealised as reals: rounding and overflow are not modelled. The three values that are
  not finite are one value \<open>NonFin\<close>: numpy produces them with a warning, the program goes
  on with them, and every addition, multiplication and negation of the program that
  meets one of them gives one of them again (also \<^verbatim>\<open>0 * inf\<close>, which is \<^verbatim>\<open>nan\<close>).
  The constants \<^verbatim>\<open>0.0000001\<close> and \<^verbatim>\<open>0.9\<close> of the source are the reals \<open>1 / 10 ^ 7\<close> and
  \<open>9 / 10\<close>. Only the default mode \<^verbatim>\<open>noprint=True\<close> is modelled; the report mode prints
  and returns \<^verbatim>\<open>None\<close>.
\<close>

datatype flt = Fin real | NonFin

fun fadd :: "flt \<Rightarrow> flt \<Rightarrow> flt" where
  "fadd (Fin x) (Fin y) = Fin (x + y)"
| "fadd _ _ = NonFin"

fun fmul :: "flt \<Rightarrow> flt \<Rightarrow> flt" where
  "fmul (Fin x) (Fin y) = Fin (x * y)"
| "fmul _ _ = NonFin"

fun fneg :: "flt \<Rightarrow> flt" where
  "fneg (Fin x) = Fin (- x)"
| "fneg NonFin = NonFin"

text \<open>
  Division of a numpy float by a finite number: by zero it gives \<^verbatim>\<open>inf\<close> or \<^verbatim>\<open>nan\<close> with
  a warning.
\<close>

fun fdivr :: "flt \<Rightarrow> real \<Rightarrow> flt" where
  "fdivr (Fin x) y = (if y = 0 then NonFin else Fin (x / y))"
| "fdivr NonFin y = NonFin"


datatype arg = Num flt | Lst "flt list"

text \<open>
  The number of periods of \<^verbatim>\<open>amortize\<close> is used as a repetition count and as an index,
  where Python tells an \<^verbatim>\<open>int\<close> from a \<^verbatim>\<open>float\<close>.
\<close>

datatype pynum = PyInt int | PyFloat flt

datatype error =
    ParamsError         \<comment> \<open>\<^verbatim>\<open>ValueError('One of the params must be set to None')\<close>\<close>
  | RatesError          \<comment> \<open>\<^verbatim>\<open>ValueError('Two of the rates must be set to `None`')\<close>\<close>
  | LengthError         \<comment> \<open>\<^verbatim>\<open>ValueError('List must have the same length')\<close> of \<^verbatim>\<open>iconv\<close>,
                            \<^verbatim>\<open>Exception('Lists in parameters must the same length')\<close> of \<^verbatim>\<open>vars2list\<close>\<close>
  | BroadcastError      \<comment> \<open>numpy's \<^verbatim>\<open>ValueError\<close>: operands could not be broadcast together\<close>
  | IntOfNonFinite      \<comment> \<open>\<^verbatim>\<open>int(x)\<close> for \<^verbatim>\<open>nan\<close> (\<^verbatim>\<open>ValueError\<close>) or an infinity (\<^verbatim>\<open>OverflowError\<close>)\<close>
  | TypeError
  | IndexError
  | ZeroDivisionError
  | RangeError          \<comment> \<open>raised by \<^verbatim>\<open>verify_eq_time_range\<close>\<close>

fun pynum_val :: "pynum \<Rightarrow> flt" where
  "pynum_val (PyInt n) = Fin (of_int n)"
| "pynum_val (PyFloat x) = x"

subsection \<open>numpy array arithmetic: broadcasting\<close>

text \<open>
  A numpy operand is a scalar (shape \<open>()\<close>) or a one-dimensional array (shape \<open>(n,)\<close>).
  Two shapes are broadcast together when they are equal or one of them is a scalar or
  has length 1; otherwise numpy raises \<^verbatim>\<open>ValueError\<close>.
\<close>

datatype shape = Scalar | Len nat

fun shape_of :: "arg \<Rightarrow> shape" where
  "shape_of (Num x) = Scalar"
| "shape_of (Lst xs) = Len (length xs)"

fun bshape :: "shape \<Rightarrow> shape \<Rightarrow> shape option" where
  "bshape Scalar s = Some s"
| "bshape (Len m) Scalar = Some (Len m)"
| "bshape (Len m) (Len n) =
     (if m = n then Some (Len m)
      else if m = 1 then Some (Len n)
      else if n = 1 then Some (Len m)
      else None)"

fun broadcast_shapes :: "shape list \<Rightarrow> shape option" where
  "broadcast_shapes [] = Some Scalar"
| "broadcast_shapes (s # ss) =
     (case broadcast_shapes ss of None \<Rightarrow> None | Some t \<Rightarrow> bshape s t)"

text \<open>Element \<open>i\<close> of an operand once it is stretched to the common shape.\<close>

fun elem :: "arg \<Rightarrow> nat \<Rightarrow> flt" where
  "elem (Num x) i = x"
| "elem (Lst xs) i = (if length xs = 1 then xs ! 0 else xs ! i)"

text \<open>
  An elementwise numpy computation \<open>k\<close> on operands \<open>as\<close>: the shapes are broadcast, then
  \<open>k\<close> is applied at every position. The only error is that of the shapes.
\<close>

definition np_lift :: "(flt list \<Rightarrow> flt) \<Rightarrow> arg list \<Rightarrow> error + arg" where
  "np_lift k as =
     (case broadcast_shapes (map shape_of as) of
        None \<Rightarrow> Inl BroadcastError
      | Some Scalar \<Rightarrow> Inr (Num (k (map (\<lambda>a. elem a 0) as)))
      | Some (Len n) \<Rightarrow> Inr (Lst (map (\<lambda>i. k (map (\<lambda>a. elem a i) as)) [0..<n])))"

text \<open>Whether a condition holds at some position of the broadcast operands (\<^verbatim>\<open>numpy.any\<close>).\<close>

definition np_any :: "(flt list \<Rightarrow> bool) \<Rightarrow> arg list \<Rightarrow> error + bool" where
  "np_any c as =
     (case broadcast_shapes (map shape_of as) of
        None \<Rightarrow> Inl BroadcastError
      | Some Scalar \<Rightarrow> Inr (c (map (\<lambda>a. elem a 0) as))
      | Some (Len n) \<Rightarrow> Inr (list_ex (\<lambda>i. c (map (\<lambda>a. elem a i) as)) [0..<n]))"

text \<open>
  An arithmetic expression on floats, given on finite operands by \<open>k\<close>, which returns
  \<open>None\<close> where the value of the expression is not finite (a division by zero, a logarithm
  of a number that is not positive, a power with no real value). An operand that is not
  finite makes the value not finite. This is so for the arithmetic that
  \<^verbatim>\<open>cashflows/basics.py\<close> itself performs (it divides by \<^verbatim>\<open>pyr\<close> and by constants only);
  in the numpy routines below it leaves out the finite values that IEEE arithmetic gives
  to a few expressions on infinite operands, such as \<^verbatim>\<open>x / inf\<close>, which is 0.
\<close>

fun finites :: "flt list \<Rightarrow> real list option" where
  "finites [] = Some []"
| "finites (NonFin # xs) = None"
| "finites (Fin x # xs) = (case finites xs of None \<Rightarrow> None | Some ys \<Rightarrow> Some (x # ys))"

definition on_finite :: "(real list \<Rightarrow> real option) \<Rightarrow> flt list \<Rightarrow> flt" where
  "on_finite k v =
     (case finites v of
        None \<Rightarrow> NonFin
      | Some xs \<Rightarrow> (case k xs of None \<Rightarrow> NonFin | Some y \<Rightarrow> Fin y))"

subsection \<open>The financial routines of numpy\<close>

text \<open>
  \<^verbatim>\<open>numpy.pv\<close>, \<^verbatim>\<open>numpy.fv\<close>, \<^verbatim>\<open>numpy.nper\<close>, \<^verbatim>\<open>numpy.pmt\<close> and \<^verbatim>\<open>numpy.rate\<close> belong
  to a library outside the repository. They are a parameter \<open>np\<close> of the model; the
  arguments of each field are in the order of the keywords of its call in \<^verbatim>\<open>tvmm\<close>,
  the last one is \<^verbatim>\<open>when\<close>.
\<close>

record numpy =
  np_pv :: "arg \<Rightarrow> arg \<Rightarrow> arg \<Rightarrow> arg \<Rightarrow> int \<Rightarrow> error + arg"    \<comment> \<open>rate, nper, fv, pmt\<close>
  np_fv :: "arg \<Rightarrow> arg \<Rightarrow> arg \<Rightarrow> arg \<Rightarrow> int \<Rightarrow> error + arg"    \<comment> \<open>rate, nper, pv, pmt\<close>
  np_nper :: "arg \<Rightarrow> arg \<Rightarrow> arg \<Rightarrow> arg \<Rightarrow> int \<Rightarrow> error + arg"  \<comment> \<open>rate, pv, fv, pmt\<close>
  np_pmt :: "arg \<Rightarrow> arg \<Rightarrow> arg \<Rightarrow> arg \<Rightarrow> int \<Rightarrow> error + arg"   \<comment> \<open>rate, nper, pv, fv\<close>
  np_rate :: "arg \<Rightarrow> arg \<Rightarrow> arg \<Rightarrow> arg \<Rightarrow> int \<Rightarrow> error + arg"  \<comment> \<open>pv, nper, fv, pmt\<close>

subsection \<open>The routines as numpy computes them\<close>

text \<open>
  For runs on concrete inputs the parameter is instantiated with the routines as numpy's
  source computes them (\<^verbatim>\<open>numpy/lib/financial.py\<close> of the releases that have them).
  \<^verbatim>\<open>pv\<close>, \<^verbatim>\<open>fv\<close> and \<^verbatim>\<open>pmt\<close> evaluate the solution of
  \<^verbatim>\<open>fv + pv*(1+rate)**nper + pmt*(1+rate*when)/rate*((1+rate)**nper - 1) == 0\<close>
  (\<^verbatim>\<open>fv + pv + pmt*nper == 0\<close> when the rate is zero), elementwise on broadcast operands.
  \<^verbatim>\<open>nper\<close> does so too, except where a rate is zero (see below). \<^verbatim>\<open>rate\<close> runs Newton's
  iteration from 0.1 until every element changes by less than \<^verbatim>\<open>1e-6\<close>, at most 100
  times, and returns \<^verbatim>\<open>nan\<close> otherwise. \<^verbatim>\<open>when\<close> must be 0 or 1 (numpy looks other values up
  in a table of names and raises).
\<close>

definition is_whole :: "real \<Rightarrow> bool" where
  "is_whole x \<longleftrightarrow> of_int \<lfloor>x\<rfloor> = x"

text \<open>\<^verbatim>\<open>x ** y\<close> on floats: \<^verbatim>\<open>nan\<close> for a negative base with a fractional exponent, \<^verbatim>\<open>inf\<close> for
  zero to a negative power.\<close>

definition np_power :: "real \<Rightarrow> real \<Rightarrow> real option" where
  "np_power x y =
     (if x = 0 \<and> y < 0 then None
      else if is_whole y then Some (x powi \<lfloor>y\<rfloor>)
      else if x < 0 then None
      else Some (x powr y))"

definition np_div :: "real \<Rightarrow> real \<Rightarrow> real option" where
  "np_div x y = (if y = 0 then None else Some (x / y))"

definition np_log :: "real \<Rightarrow> real option" where
  "np_log x = (if x \<le> 0 then None else Some (ln x))"

definition annuity_fact :: "real \<Rightarrow> real \<Rightarrow> real \<Rightarrow> real \<Rightarrow> real" where
  "annuity_fact rate nper temp w =
     (if rate = 0 then nper else (1 + rate * w) * (temp - 1) / rate)"

definition pv_kernel :: "real \<Rightarrow> real \<Rightarrow> real \<Rightarrow> real \<Rightarrow> real \<Rightarrow> real option" where
  "pv_kernel rate nper fv pmt w =
     (case np_power (1 + rate) nper of None \<Rightarrow> None
      | Some temp \<Rightarrow> np_div (- (fv + pmt * annuity_fact rate nper temp w)) temp)"

definition fv_kernel :: "real \<Rightarrow> real \<Rightarrow> real \<Rightarrow> real \<Rightarrow> real \<Rightarrow> real option" where
  "fv_kernel rate nper pv pmt w =
     (case np_power (1 + rate) nper of None \<Rightarrow> None
      | Some temp \<Rightarrow> Some (- (pv * temp + pmt * annuity_fact rate nper temp w)))"

definition pmt_kernel :: "real \<Rightarrow> real \<Rightarrow> real \<Rightarrow> real \<Rightarrow> real \<Rightarrow> real option" where
  "pmt_kernel rate nper pv fv w =
     (case np_power (1 + rate) nper of None \<Rightarrow> None
      | Some temp \<Rightarrow> np_div (- (fv + pv * temp)) (annuity_fact rate nper temp w))"

text \<open>
  The elementwise part of \<^verbatim>\<open>numpy.nper\<close>:
  \<^verbatim>\<open>A = -(fv + pv)/(pmt+0)\<close>, \<^verbatim>\<open>B = np.log((-fv+z) / (pv+z))/np.log(1+rate)\<close> with
  \<^verbatim>\<open>z = pmt*(1+rate*when)/rate\<close>, and \<^verbatim>\<open>np.where(rate == 0, A, B)\<close>. At the rate \<open>- 1\<close> the
  divisor is \<^verbatim>\<open>log(0)\<close>, which is \<^verbatim>\<open>-inf\<close>, and a finite logarithm divided by it is zero.
\<close>

definition nper_kernel :: "real \<Rightarrow> real \<Rightarrow> real \<Rightarrow> real \<Rightarrow> real \<Rightarrow> real option" where
  "nper_kernel rate pv fv pmt w =
     (if rate = 0 then np_div (- (fv + pv)) pmt
      else
        let z = pmt * (1 + rate * w) / rate
        in case np_div (- fv + z) (pv + z) of None \<Rightarrow> None
           | Some q \<Rightarrow>
               (case np_log q of None \<Rightarrow> None
                | Some a \<Rightarrow>
                    if 1 + rate = 0 then Some 0
                    else (case np_log (1 + rate) of None \<Rightarrow> None
                          | Some b \<Rightarrow> np_div a b)))"

text \<open>
  Before that, \<^verbatim>\<open>numpy.nper\<close> computes \<^verbatim>\<open>z\<close> on the whole arrays with division by zero set
  to raise. The division raises where a rate is zero and the payment is a finite number
  other than zero (\<^verbatim>\<open>0/0\<close>, \<^verbatim>\<open>inf/0\<close> and \<^verbatim>\<open>nan/0\<close> do not raise).
\<close>

definition divides_by_zero :: "flt list \<Rightarrow> bool" where
  "divides_by_zero v \<longleftrightarrow>
     (case v ! 0 of Fin p \<Rightarrow> p \<noteq> 0 | NonFin \<Rightarrow> False) \<and> v ! 1 = Fin 0"

text \<open>The Newton step \<open>g(r) / g'(r)\<close> of \<^verbatim>\<open>numpy.rate\<close>, for \<open>n\<close> periods, payment \<open>p\<close>,
  present value \<open>x\<close> and future value \<open>y\<close>.\<close>

definition g_div_gp :: "real \<Rightarrow> real \<Rightarrow> real \<Rightarrow> real \<Rightarrow> real \<Rightarrow> real \<Rightarrow> real option" where
  "g_div_gp r n p x y w =
     (if r = 0 then None
      else case np_power (r + 1) n of None \<Rightarrow> None
           | Some t1 \<Rightarrow>
               (case np_power (r + 1) (n - 1) of None \<Rightarrow> None
                | Some t2 \<Rightarrow>
                    np_div (y + t1 * x + p * (t1 - 1) * (r * w + 1) / r)
                      (n * t2 * x - p * (t1 - 1) * (r * w + 1) / r\<^sup>2
                       + n * p * t2 * (r * w + 1) / r + p * (t1 - 1) * w / r)))"

definition newton_kernel :: "real \<Rightarrow> real list \<Rightarrow> real option" where
  "newton_kernel w v =
     (case g_div_gp (v ! 0) (v ! 1) (v ! 2) (v ! 3) (v ! 4) w of
        None \<Rightarrow> None
      | Some d \<Rightarrow> Some (v ! 0 - d))"

fun below :: "real \<Rightarrow> flt \<Rightarrow> bool" where
  "below tol (Fin d) = (d < tol)"
| "below tol NonFin = False"

fun all_below :: "real \<Rightarrow> arg \<Rightarrow> bool" where
  "all_below tol (Num d) = below tol d"
| "all_below tol (Lst ds) = list_all (below tol) ds"

text \<open>\<^verbatim>\<open>np.nan + rn\<close>: \<^verbatim>\<open>nan\<close> in the shape of \<open>rn\<close>.\<close>

fun nan_like :: "arg \<Rightarrow> arg" where
  "nan_like (Num x) = Num NonFin"
| "nan_like (Lst xs) = Lst (map (\<lambda>x. NonFin) xs)"

fun newton :: "nat \<Rightarrow> arg \<Rightarrow> arg \<Rightarrow> arg \<Rightarrow> arg \<Rightarrow> arg \<Rightarrow> real \<Rightarrow> error + arg" where
  "newton 0 rn nper pmt pv fv w = Inr (nan_like rn)"
| "newton (Suc k) rn nper pmt pv fv w =
     (case np_lift (on_finite (newton_kernel w)) [rn, nper, pmt, pv, fv] of
        Inl e \<Rightarrow> Inl e
      | Inr rnp1 \<Rightarrow>
          (case np_lift (on_finite (\<lambda>v. Some \<bar>v ! 0 - v ! 1\<bar>)) [rnp1, rn] of
             Inl e \<Rightarrow> Inl e
           | Inr diff \<Rightarrow>
               if all_below (1 / 10 ^ 6) diff then Inr rnp1
               else newton k rnp1 nper pmt pv fv w))"

definition with_when :: "int \<Rightarrow> (real \<Rightarrow> error + arg) \<Rightarrow> error + arg" where
  "with_when due f = (if due = 0 \<or> due = 1 then f (of_int due) else Inl TypeError)"

text \<open>
  In \<^verbatim>\<open>numpy.nper\<close>, when the division for \<^verbatim>\<open>z\<close> raises, the routine returns
  \<^verbatim>\<open>(-fv + pv) / pmt\<close> for the whole arrays: the rate is left out of the result, also of
  its shape, and the sign of \<open>pv\<close> is not that of the solution of the equation.
\<close>

definition numpy_doc :: numpy where
  "numpy_doc =
     \<lparr> np_pv = (\<lambda>rate nper fv pmt due. with_when due (\<lambda>w.
         np_lift (on_finite (\<lambda>v. pv_kernel (v ! 0) (v ! 1) (v ! 2) (v ! 3) w))
           [rate, nper, fv, pmt])),
       np_fv = (\<lambda>rate nper pv pmt due. with_when due (\<lambda>w.
         np_lift (on_finite (\<lambda>v. fv_kernel (v ! 0) (v ! 1) (v ! 2) (v ! 3) w))
           [rate, nper, pv, pmt])),
       np_nper = (\<lambda>rate pv fv pmt due. with_when due (\<lambda>w.
         case np_any divides_by_zero [pmt, rate] of
           Inl e \<Rightarrow> Inl e
         | Inr raised \<Rightarrow>
             if raised
             then np_lift (on_finite (\<lambda>v. np_div (- (v ! 0) + v ! 1) (v ! 2))) [fv, pv, pmt]
             else np_lift (on_finite (\<lambda>v. nper_kernel (v ! 0) (v ! 1) (v ! 2) (v ! 3) w))
                    [rate, pv, fv, pmt])),
       np_pmt = (\<lambda>rate nper pv fv due. with_when due (\<lambda>w.
         np_lift (on_finite (\<lambda>v. pmt_kernel (v ! 0) (v ! 1) (v ! 2) (v ! 3) w))
           [rate, nper, pv, fv])),
       np_rate = (\<lambda>pv nper fv pmt due. with_when due (\<lambda>w.
         newton 100 (Num (Fin (1 / 10))) nper pmt pv fv w)) \<rparr>"

section \<open>\<^verbatim>\<open>tvmm\<close>\<close>

definition numnone :: "'a option \<Rightarrow> 'b option \<Rightarrow> 'c option \<Rightarrow> 'd option \<Rightarrow> 'e option \<Rightarrow> nat" where
  "numnone pval fval nper pmt nrate =
     (if pval = None then 1 else 0) + (if fval = None then 1 else 0)
     + (if nper = None then 1 else 0) + (if pmt = None then 1 else 0)
     + (if nrate = None then 1 else 0)"

text \<open>\<^verbatim>\<open>nrate/100/pyr\<close> and \<^verbatim>\<open>numpy.rate(...) * 100 * pyr\<close>, on numpy arrays.\<close>

text \<open>\<^verbatim>\<open>nrate/100/pyr\<close> and \<^verbatim>\<open>numpy.rate(...) * 100 * pyr\<close>, on numpy arrays.\<close>

definition periodic_rate :: "arg \<Rightarrow> arg \<Rightarrow> error + arg" where
  "periodic_rate nrate pyr =
     np_lift (on_finite (\<lambda>v. np_div (v ! 0 / 100) (v ! 1))) [nrate, pyr]"

definition annualize :: "arg \<Rightarrow> arg \<Rightarrow> error + arg" where
  "annualize r pyr = np_lift (on_finite (\<lambda>v. Some (v ! 0 * 100 * v ! 1))) [r, pyr]"

text \<open>
  The chain \<^verbatim>\<open>if pval is None: ... elif fval is None: ...\<close> of lines 300 to 309; the
  last branch is the \<^verbatim>\<open>else\<close>, which does not look at \<^verbatim>\<open>nrate\<close>. After the count of
  unset parameters exactly one of the five is \<^verbatim>\<open>None\<close>; a second \<^verbatim>\<open>None\<close> would reach
  numpy's arithmetic and raise \<^verbatim>\<open>TypeError\<close>.
\<close>

fun tvmm_solve ::
  "numpy \<Rightarrow> arg option \<Rightarrow> arg option \<Rightarrow> arg option \<Rightarrow> arg option \<Rightarrow> arg option \<Rightarrow>
   int \<Rightarrow> arg \<Rightarrow> error + arg" where
  "tvmm_solve np None (Some fval) (Some pmt) (Some nrate) (Some nper) due pyr =
     (case periodic_rate nrate pyr of Inl e \<Rightarrow> Inl e
      | Inr rate \<Rightarrow> np_pv np rate nper fval pmt due)"
| "tvmm_solve np (Some pval) None (Some pmt) (Some nrate) (Some nper) due pyr =
     (case periodic_rate nrate pyr of Inl e \<Rightarrow> Inl e
      | Inr rate \<Rightarrow> np_fv np rate nper pval pmt due)"
| "tvmm_solve np (Some pval) (Some fval) (Some pmt) (Some nrate) None due pyr =
     (case periodic_rate nrate pyr of Inl e \<Rightarrow> Inl e
      | Inr rate \<Rightarrow> np_nper np rate pval fval pmt due)"
| "tvmm_solve np (Some pval) (Some fval) None (Some nrate) (Some nper) due pyr =
     (case periodic_rate nrate pyr of Inl e \<Rightarrow> Inl e
      | Inr rate \<Rightarrow> np_pmt np rate nper pval fval due)"
| "tvmm_solve np (Some pval) (Some fval) (Some pmt) nrate (Some nper) due pyr =
     (case np_rate np pval nper fval pmt due of Inl e \<Rightarrow> Inl e
      | Inr r \<Rightarrow> annualize r pyr)"
| "tvmm_solve np _ _ _ _ _ due pyr = Inl TypeError"

definition tvmm ::
  "numpy \<Rightarrow> arg option \<Rightarrow> arg option \<Rightarrow> arg option \<Rightarrow> arg option \<Rightarrow> arg option \<Rightarrow>
   int \<Rightarrow> arg \<Rightarrow> error + arg" where
  "tvmm np pval fval pmt nrate nper due pyr =
     (if numnone pval fval nper pmt nrate > 1 then Inl ParamsError
      else
        let pmt1 = (if numnone pval fval nper pmt nrate = 0 then None else pmt);
            pmt2 = (if pmt1 = Some (Num (Fin 0)) then Some (Num (Fin (1 / 10 ^ 7))) else pmt1)
        in tvmm_solve np pval fval pmt2 nrate nper due pyr)"

section \<open>\<^verbatim>\<open>amortize\<close>\<close>

text \<open>
  \<^verbatim>\<open>amortize\<close> takes numbers (its docstring: \<^verbatim>\<open>float\<close>, \<^verbatim>\<open>int\<close>), here finite ones,
  calls \<^verbatim>\<open>tvmm\<close> for the parameter that is unset and goes on with the number it returns,
  finite or not; numpy returns a number for numbers, a list there would be a type error
  in the arithmetic that follows.
\<close>

fun as_num :: "error + arg \<Rightarrow> error + flt" where
  "as_num (Inl e) = Inl e"
| "as_num (Inr (Num x)) = Inr x"
| "as_num (Inr (Lst xs)) = Inl TypeError"

record resolved =
  r_pval :: flt
  r_fval :: flt
  r_pmt :: flt
  r_nrate :: flt
  r_nper :: pynum

fun amortize_solve ::
  "numpy \<Rightarrow> real option \<Rightarrow> real option \<Rightarrow> real option \<Rightarrow> real option \<Rightarrow> pynum option \<Rightarrow>
   int \<Rightarrow> int \<Rightarrow> error + resolved" where
  "amortize_solve np None (Some fval) (Some pmt) (Some nrate) (Some nper) due pyr =
     (case as_num (tvmm np None (Some (Num (Fin fval))) (Some (Num (Fin pmt)))
                     (Some (Num (Fin nrate))) (Some (Num (pynum_val nper))) due (Num (Fin (of_int pyr)))) of
        Inl e \<Rightarrow> Inl e
      | Inr x \<Rightarrow> Inr \<lparr>r_pval = x, r_fval = Fin fval,
                     r_pmt = Fin pmt, r_nrate = Fin nrate, r_nper = nper\<rparr>)"
| "amortize_solve np (Some pval) None (Some pmt) (Some nrate) (Some nper) due pyr =
     (case as_num (tvmm np (Some (Num (Fin pval))) None (Some (Num (Fin pmt)))
                     (Some (Num (Fin nrate))) (Some (Num (pynum_val nper))) due (Num (Fin (of_int pyr)))) of
        Inl e \<Rightarrow> Inl e
      | Inr x \<Rightarrow> Inr \<lparr>r_pval = Fin pval, r_fval = x,
                     r_pmt = Fin pmt, r_nrate = Fin nrate, r_nper = nper\<rparr>)"
| "amortize_solve np (Some pval) (Some fval) (Some pmt) (Some nrate) None due pyr =
     (case as_num (tvmm np (Some (Num (Fin pval))) (Some (Num (Fin fval))) (Some (Num (Fin pmt)))
                     (Some (Num (Fin nrate))) None due (Num (Fin (of_int pyr)))) of
        Inl e \<Rightarrow> Inl e
      | Inr x \<Rightarrow>
          Inr \<lparr>r_pval = Fin pval, r_fval = Fin fval, r_pmt = Fin pmt, r_nrate = Fin nrate,
              r_nper = PyFloat x\<rparr>)"
| "amortize_solve np (Some pval) (Some fval) None (Some nrate) (Some nper) due pyr =
     (case as_num (tvmm np (Some (Num (Fin pval))) (Some (Num (Fin fval))) None
                     (Some (Num (Fin nrate))) (Some (Num (pynum_val nper))) due (Num (Fin (of_int pyr)))) of
        Inl e \<Rightarrow> Inl e
      | Inr x \<Rightarrow> Inr \<lparr>r_pval = Fin pval, r_fval = Fin fval,
                     r_pmt = x, r_nrate = Fin nrate, r_nper = nper\<rparr>)"
| "amortize_solve np (Some pval) (Some fval) (Some pmt) nrate (Some nper) due pyr =
     (case as_num (tvmm np (Some (Num (Fin pval))) (Some (Num (Fin fval))) (Some (Num (Fin pmt)))
                     None (Some (Num (pynum_val nper))) due (Num (Fin (of_int pyr)))) of
        Inl e \<Rightarrow> Inl e
      | Inr x \<Rightarrow> Inr \<lparr>r_pval = Fin pval, r_fval = Fin fval,
                     r_pmt = Fin pmt, r_nrate = x, r_nper = nper\<rparr>)"
| "amortize_solve np _ _ _ _ _ due pyr = Inl TypeError"

text \<open>Python's \<^verbatim>\<open>int(x)\<close> on a finite float truncates toward zero.\<close>

definition py_int :: "real \<Rightarrow> int" where
  "py_int x = (if 0 \<le> x then \<lfloor>x\<rfloor> else \<lceil>x\<rceil>)"

text \<open>
  Lines 508 to 512: \<^verbatim>\<open>if int(nper) != nper: nper = int(nper + 0.9)\<close>, then
  \<^verbatim>\<open>[0] * (nper + 1)\<close>. A float that is a whole number stays a float, and a float is
  no repetition count: the list construction raises \<^verbatim>\<open>TypeError\<close>. \<^verbatim>\<open>int\<close> raises on a
  float that is not finite.
\<close>

fun nper_whole :: "pynum \<Rightarrow> error + int" where
  "nper_whole (PyInt n) = Inr n"
| "nper_whole (PyFloat (Fin x)) =
     (if of_int (py_int x) \<noteq> x then Inr (py_int (x + 9 / 10)) else Inl TypeError)"
| "nper_whole (PyFloat NonFin) = Inl IntOfNonFinite"

record table =
  begbal :: "flt list"
  ipmt :: "flt list"
  ppmt :: "flt list"
  rembal :: "flt list"

text \<open>Lines 518 to 524, for a list of \<open>n + 1\<close> payments.\<close>

definition payments :: "flt \<Rightarrow> nat \<Rightarrow> int \<Rightarrow> flt list" where
  "payments pmt n due =
     (let p0 = replicate (n + 1) pmt;
          p1 = (if due = 0 then p0[0 := Fin 0] else p0)
      in if due = 1 then p1[n := Fin 0] else p1)"

text \<open>The body of the loop of lines 529 to 538.\<close>

definition period_step :: "flt \<Rightarrow> flt list \<Rightarrow> table \<Rightarrow> nat \<Rightarrow> table" where
  "period_step erate pmts tb period =
     (if period = 0 then
        let tb1 = tb\<lparr>rembal := (rembal tb)[0 := fadd (begbal tb ! 0) (pmts ! 0)]\<rparr>
        in tb1\<lparr>ppmt := (ppmt tb1)[0 := pmts ! 0]\<rparr>
      else
        let tb1 = tb\<lparr>begbal := (begbal tb)[period := rembal tb ! (period - 1)]\<rparr>;
            tb2 = tb1\<lparr>ipmt := (ipmt tb1)[period := fmul (begbal tb1 ! period) erate]\<rparr>;
            tb3 = tb2\<lparr>ppmt := (ppmt tb2)[period := fadd (pmts ! period) (ipmt tb2 ! period)]\<rparr>
        in tb3\<lparr>rembal := (rembal tb3)[period := fadd (begbal tb3 ! period) (ppmt tb3 ! period)]\<rparr>)"

definition schedule :: "flt \<Rightarrow> flt list \<Rightarrow> flt \<Rightarrow> nat \<Rightarrow> table" where
  "schedule pval pmts erate n =
     (let zeros = replicate (n + 1) (Fin 0);
          tb0 = \<lparr>begbal = zeros[0 := pval], ipmt = zeros, ppmt = zeros, rembal = zeros\<rparr>
      in foldl (period_step erate pmts) tb0 [0..<n + 1])"

text \<open>
  \<^verbatim>\<open>erate = nrate / pyr / 100\<close> of line 506. With \<^verbatim>\<open>pyr = 0\<close> the division raises
  \<^verbatim>\<open>ZeroDivisionError\<close> on a Python number, which a supplied \<^verbatim>\<open>nrate\<close> is, and gives
  \<^verbatim>\<open>inf\<close> or \<^verbatim>\<open>nan\<close> on the numpy number that \<^verbatim>\<open>tvmm\<close> returned.
\<close>

definition erate_of :: "flt \<Rightarrow> int \<Rightarrow> flt" where
  "erate_of nrate pyr = fdivr (fdivr nrate (of_int pyr)) 100"

text \<open>
  The whole of \<^verbatim>\<open>amortize\<close> up to the end of the loop: the resolved parameters, the
  table and the list of payments. With a negative number of periods the lists are empty
  and the first assignment to an index raises \<^verbatim>\<open>IndexError\<close>.
\<close>

definition amortize_table ::
  "numpy \<Rightarrow> real option \<Rightarrow> real option \<Rightarrow> real option \<Rightarrow> real option \<Rightarrow> pynum option \<Rightarrow>
   int \<Rightarrow> int \<Rightarrow> error + (resolved \<times> table \<times> flt list)" where
  "amortize_table np pval fval pmt nrate nper due pyr =
     (if numnone pval fval nper pmt nrate > 1 then Inl ParamsError
      else
        let pmt1 = (if numnone pval fval nper pmt nrate = 0 then None else pmt);
            pmt2 = (if pmt1 = Some 0 then Some (1 / 10 ^ 7) else pmt1)
        in case amortize_solve np pval fval pmt2 nrate nper due pyr of
             Inl e \<Rightarrow> Inl e
           | Inr res \<Rightarrow>
               if pyr = 0 \<and> nrate \<noteq> None then Inl ZeroDivisionError
               else
                 let erate = erate_of (r_nrate res) pyr
                 in case nper_whole (r_nper res) of
                      Inl e \<Rightarrow> Inl e
                    | Inr n \<Rightarrow>
                        if n < 0 then Inl IndexError
                        else
                          let pmts = payments (r_pmt res) (nat n) due
                          in Inr (res, schedule (r_pval res) pmts erate (nat n), pmts))"

text \<open>\<^verbatim>\<open>return (ppmt, ipmt, pmt, rembal)\<close>.\<close>

definition amortize ::
  "numpy \<Rightarrow> real option \<Rightarrow> real option \<Rightarrow> real option \<Rightarrow> real option \<Rightarrow> pynum option \<Rightarrow>
   int \<Rightarrow> int \<Rightarrow> error + (flt list \<times> flt list \<times> flt list \<times> flt list)" where
  "amortize np pval fval pmt nrate nper due pyr =
     (case amortize_table np pval fval pmt nrate nper due pyr of
        Inl e \<Rightarrow> Inl e
      | Inr (res, tb, pmts) \<Rightarrow> Inr (ppmt tb, ipmt tb, pmts, rembal tb))"

section \<open>\<^verbatim>\<open>iconv\<close>\<close>

fun is_list :: "arg option \<Rightarrow> bool" where
  "is_list (Some (Lst xs)) = True"
| "is_list _ = False"

fun len_of :: "arg option \<Rightarrow> nat" where
  "len_of (Some (Lst xs)) = length xs"
| "len_of _ = 0"

text \<open>\<^verbatim>\<open>maxlen\<close> of lines 594 to 602; only lists count.\<close>

definition maxlen_of :: "arg option \<Rightarrow> arg option \<Rightarrow> arg option \<Rightarrow> arg \<Rightarrow> nat" where
  "maxlen_of nrate erate prate pyr =
     max (max (max (max 1 (len_of nrate)) (len_of erate)) (len_of prate)) (len_of (Some pyr))"

text \<open>\<^verbatim>\<open>if isinstance(x, (int, float)): x = [x] * maxlen\<close>.\<close>

fun as_list :: "nat \<Rightarrow> arg \<Rightarrow> arg" where
  "as_list n (Num x) = Lst (replicate n x)"
| "as_list n (Lst xs) = Lst xs"

text \<open>\<^verbatim>\<open>x = x.tolist()\<close> followed by \<^verbatim>\<open>if maxlen == 1: x = x[0]\<close>.\<close>

fun first_if_single :: "nat \<Rightarrow> arg \<Rightarrow> error + arg" where
  "first_if_single n (Lst xs) =
     (if n = 1 then (case xs of [] \<Rightarrow> Inl IndexError | x # _ \<Rightarrow> Inr (Num x)) else Inr (Lst xs))"
| "first_if_single n (Num x) = (if n = 1 then Inl TypeError else Inr (Num x))"

text \<open>\<^verbatim>\<open>100 * (numpy.power(1 + r / 100, e) - 1)\<close>, elementwise.\<close>

definition compound :: "arg \<Rightarrow> arg \<Rightarrow> error + arg" where
  "compound r e =
     np_lift (on_finite (\<lambda>v. case np_power (1 + v ! 0 / 100) (v ! 1) of
                               None \<Rightarrow> None
                             | Some t \<Rightarrow> Some (100 * (t - 1)))) [r, e]"

definition iconv ::
  "arg option \<Rightarrow> arg option \<Rightarrow> arg option \<Rightarrow> arg \<Rightarrow> error + (arg \<times> arg)" where
  "iconv nrate erate prate pyr =
     (if (if nrate = None then 1 else 0) + (if erate = None then 1 else 0)
         + (if prate = None then 1 else (0::nat)) \<noteq> 2 then Inl RatesError
      else if is_list nrate \<and> is_list (Some pyr) \<and> len_of nrate \<noteq> len_of (Some pyr)
        then Inl LengthError
      else if is_list erate \<and> is_list (Some pyr) \<and> len_of erate \<noteq> len_of (Some pyr)
        then Inl LengthError
      else if is_list prate \<and> is_list (Some pyr) \<and> len_of prate \<noteq> len_of (Some pyr)
        then Inl LengthError
      else
        let maxlen = maxlen_of nrate erate prate pyr;
            pyrs = as_list maxlen pyr
        in case nrate of
             Some nr \<Rightarrow>
               (case np_lift (on_finite (\<lambda>v. np_div (v ! 0) (v ! 1))) [as_list maxlen nr, pyrs] of
                  Inl e \<Rightarrow> Inl e
                | Inr pr \<Rightarrow>
                    (case compound pr pyrs of
                       Inl e \<Rightarrow> Inl e
                     | Inr er \<Rightarrow>
                         (case first_if_single maxlen pr of
                            Inl e \<Rightarrow> Inl e
                          | Inr pr' \<Rightarrow>
                              (case first_if_single maxlen er of
                                 Inl e \<Rightarrow> Inl e
                               | Inr er' \<Rightarrow> Inr (er', pr')))))
           | None \<Rightarrow>
               (case erate of
                  Some er \<Rightarrow>
                    (case np_lift (on_finite (\<lambda>v. np_div 1 (v ! 0))) [pyrs] of
                       Inl e \<Rightarrow> Inl e
                     | Inr expo \<Rightarrow>
                         (case compound (as_list maxlen er) expo of
                            Inl e \<Rightarrow> Inl e
                          | Inr pr \<Rightarrow>
                              (case np_lift (on_finite (\<lambda>v. Some (v ! 0 * v ! 1))) [pyrs, pr] of
                                 Inl e \<Rightarrow> Inl e
                               | Inr nr \<Rightarrow>
                                   (case first_if_single maxlen pr of
                                      Inl e \<Rightarrow> Inl e
                                    | Inr pr' \<Rightarrow>
                                        (case first_if_single maxlen nr of
                                           Inl e \<Rightarrow> Inl e
                                         | Inr nr' \<Rightarrow> Inr (nr', pr'))))))
                | None \<Rightarrow>
                    (case prate of
                       None \<Rightarrow> Inl TypeError
                     | Some pr0 \<Rightarrow>
                         (case compound (as_list maxlen pr0) pyrs of
                            Inl e \<Rightarrow> Inl e
                          | Inr er \<Rightarrow>
                              (case np_lift (on_finite (\<lambda>v. Some (v ! 0 * v ! 1)))
                                      [pyrs, as_list maxlen pr0] of
                                 Inl e \<Rightarrow> Inl e
                               | Inr nr \<Rightarrow>
                                   (case first_if_single maxlen er of
                                      Inl e \<Rightarrow> Inl e
                                    | Inr er' \<Rightarrow>
                                        (case first_if_single maxlen nr of
                                           Inl e \<Rightarrow> Inl e
                                         | Inr nr' \<Rightarrow> Inr (nr', er'))))))))"

section \<open>\<^verbatim>\<open>gcashcomp.py\<close>: \<^verbatim>\<open>vars2list\<close> and \<^verbatim>\<open>after_tax_cashflow\<close>\<close>

text \<open>A parameter of \<^verbatim>\<open>vars2list\<close> is a list or a single value.\<close>

datatype 'a param = Single 'a | Multi "'a list"

fun param_len :: "'a param \<Rightarrow> nat" where
  "param_len (Single x) = 0"
| "param_len (Multi xs) = length xs"

fun is_multi :: "'a param \<Rightarrow> bool" where
  "is_multi (Single x) = False"
| "is_multi (Multi xs) = True"

fun expand :: "nat \<Rightarrow> 'a param \<Rightarrow> 'a list" where
  "expand n (Single x) = replicate n x"
| "expand n (Multi xs) = xs"

definition vars2list :: "'a param list \<Rightarrow> error + 'a list list" where
  "vars2list params =
     (let length = foldl (\<lambda>l p. if is_multi p then max l (param_len p) else l) 1 params
      in if length > 1 \<and> list_ex (\<lambda>p. is_multi p \<and> param_len p \<noteq> length) params
         then Inl LengthError
         else Inr (map (expand length) params))"

text \<open>
  Modelled from the spec: the class \<^verbatim>\<open>TimeSeries\<close> of \<^verbatim>\<open>cashflows/gtimeseries.py\<close>, which
  is not among the sources. The spec (section 6): a time-indexed series supporting
  elementwise access by period index, with a defined start and end and periods per year. A
  start or end is a tuple of integers, as printed by the doctests (\<^verbatim>\<open>Start = (0,)\<close>).
\<close>

record timeseries =
  ts_start :: "int list"
  ts_end :: "int list"
  ts_pyr :: int
  ts_data :: "real list"

text \<open>
  Modelled from the spec: \<^verbatim>\<open>verify_eq_time_range\<close> of \<^verbatim>\<open>cashflows/gtimeseries.py\<close>, the
  equality-of-range validation between two series; it raises unless start, end and periods
  per year agree.
\<close>

definition verify_eq_time_range :: "timeseries \<Rightarrow> timeseries \<Rightarrow> error + unit" where
  "verify_eq_time_range s1 s2 =
     (if ts_start s1 = ts_start s2 \<and> ts_end s1 = ts_end s2 \<and> ts_pyr s1 = ts_pyr s2
      then Inr () else Inl RangeError)"

text \<open>
  One round of the loop of lines 165 to 169 on the copy \<open>result\<close>; reading the tax rate
  beyond its data raises \<^verbatim>\<open>IndexError\<close>.
\<close>

definition tax_step :: "real list \<Rightarrow> error + real list \<Rightarrow> nat \<Rightarrow> error + real list" where
  "tax_step tax acc time =
     (case acc of
        Inl e \<Rightarrow> Inl e
      | Inr result \<Rightarrow>
          if result ! time > 0 then
            (if time < length tax
             then Inr (result[time := result ! time * (tax ! time / 100)])
             else Inl IndexError)
          else Inr (result[time := 0]))"

definition tax_one :: "timeseries \<Rightarrow> timeseries \<Rightarrow> error + timeseries" where
  "tax_one xcflo xtax_rate =
     (case verify_eq_time_range xcflo xtax_rate of
        Inl e \<Rightarrow> Inl e
      | Inr _ \<Rightarrow>
          (case foldl (tax_step (ts_data xtax_rate)) (Inr (ts_data xcflo))
                  [0..<length (ts_data xcflo)] of
             Inl e \<Rightarrow> Inl e
           | Inr result \<Rightarrow> Inr (xcflo\<lparr>ts_data := result\<rparr>)))"

fun tax_all :: "(timeseries \<times> timeseries) list \<Rightarrow> error + timeseries list" where
  "tax_all [] = Inr []"
| "tax_all ((c, r) # ps) =
     (case tax_one c r of
        Inl e \<Rightarrow> Inl e
      | Inr x \<Rightarrow> (case tax_all ps of Inl e \<Rightarrow> Inl e | Inr xs \<Rightarrow> Inr (x # xs)))"

definition after_tax_cashflow ::
  "timeseries param \<Rightarrow> timeseries param \<Rightarrow> error + timeseries param" where
  "after_tax_cashflow cflo tax_rate =
     (case vars2list [cflo, tax_rate] of
        Inl e \<Rightarrow> Inl e
      | Inr params \<Rightarrow>
          (case tax_all (zip (params ! 0) (params ! 1)) of
             Inl e \<Rightarrow> Inl e
           | Inr retval \<Rightarrow>
               if length retval = 1 then Inr (Single (retval ! 0)) else Inr (Multi retval)))"

section \<open>Properties of the numpy routines used by some results\<close>




fun neg_arg :: "arg \<Rightarrow> arg" where
  "neg_arg (Num x) = Num (fneg x)"
| "neg_arg (Lst xs) = Lst (map fneg xs)"

definition neg_result :: "error + arg \<Rightarrow> error + arg" where
  "neg_result r = (case r of Inl e \<Rightarrow> Inl e | Inr a \<Rightarrow> Inr (neg_arg a))"

text \<open>
  On numbers, \<^verbatim>\<open>pv\<close>, \<^verbatim>\<open>fv\<close> and \<^verbatim>\<open>pmt\<close> change sign with their monetary arguments, and
  \<^verbatim>\<open>nper\<close> and \<^verbatim>\<open>rate\<close> do not change.
\<close>

definition np_sign_symmetric :: "numpy \<Rightarrow> bool" where
  "np_sign_symmetric np \<longleftrightarrow>
     (\<forall>a b x y due.
        np_pv np (Num a) (Num b) (Num (fneg x)) (Num (fneg y)) due
          = neg_result (np_pv np (Num a) (Num b) (Num x) (Num y) due) \<and>
        np_fv np (Num a) (Num b) (Num (fneg x)) (Num (fneg y)) due
          = neg_result (np_fv np (Num a) (Num b) (Num x) (Num y) due) \<and>
        np_pmt np (Num a) (Num b) (Num (fneg x)) (Num (fneg y)) due
          = neg_result (np_pmt np (Num a) (Num b) (Num x) (Num y) due) \<and>
        np_nper np (Num a) (Num (fneg b)) (Num (fneg x)) (Num (fneg y)) due
          = np_nper np (Num a) (Num b) (Num x) (Num y) due \<and>
        np_rate np (Num (fneg a)) (Num b) (Num (fneg x)) (Num (fneg y)) due
          = np_rate np (Num a) (Num b) (Num x) (Num y) due)"

section \<open>The schedule walk\<close>

text \<open>What holds of the table once the periods below \<open>k\<close> are done.\<close>

definition rows_ok :: "flt \<Rightarrow> flt list \<Rightarrow> flt \<Rightarrow> nat \<Rightarrow> nat \<Rightarrow> table \<Rightarrow> bool" where
  "rows_ok pval pmts erate n k tb \<longleftrightarrow>
     length (begbal tb) = n + 1 \<and> length (ipmt tb) = n + 1 \<and>
     length (ppmt tb) = n + 1 \<and> length (rembal tb) = n + 1 \<and>
     begbal tb ! 0 = pval \<and>
     (0 < k \<longrightarrow> rembal tb ! 0 = fadd pval (pmts ! 0) \<and> ppmt tb ! 0 = pmts ! 0) \<and>
     (\<forall>t. 1 \<le> t \<and> t < k \<longrightarrow>
        begbal tb ! t = rembal tb ! (t - 1) \<and>
        ipmt tb ! t = fmul (begbal tb ! t) erate \<and>
        ppmt tb ! t = fadd (pmts ! t) (ipmt tb ! t) \<and>
        rembal tb ! t = fadd (begbal tb ! t) (ppmt tb ! t))"


text \<open>The copy of the cashflow once the loop of \<^verbatim>\<open>after_tax_cashflow\<close> has done the positions below \<open>k\<close>.\<close>

definition taxed :: "real list \<Rightarrow> real list \<Rightarrow> nat \<Rightarrow> real list" where
  "taxed xs tax k =
     map (\<lambda>t. if t < k then (if xs ! t > 0 then xs ! t * (tax ! t / 100) else 0) else xs ! t)
       [0..<length xs]"

section \<open>Negation of the monetary values\<close>

definition neg_table :: "table \<Rightarrow> table" where
  "neg_table tb =
     \<lparr>begbal = map fneg (begbal tb), ipmt = map fneg (ipmt tb),
      ppmt = map fneg (ppmt tb), rembal = map fneg (rembal tb)\<rparr>"

definition neg_resolved :: "resolved \<Rightarrow> resolved" where
  "neg_resolved res =
     \<lparr>r_pval = fneg (r_pval res), r_fval = fneg (r_fval res), r_pmt = fneg (r_pmt res),
      r_nrate = r_nrate res, r_nper = r_nper res\<rparr>"

text \<open>The tuple returned by \<^verbatim>\<open>amortize\<close> with every entry of the four lists negated.\<close>

definition neg_lists ::
  "error + (flt list \<times> flt list \<times> flt list \<times> flt list) \<Rightarrow>
   error + (flt list \<times> flt list \<times> flt list \<times> flt list)" where
  "neg_lists r =
     (case r of
        Inl e \<Rightarrow> Inl e
      | Inr (P, I, M, B) \<Rightarrow> Inr (map fneg P, map fneg I, map fneg M, map fneg B))"

text \<open>All four columns of a table have \<open>l\<close> entries.\<close>

definition table_len :: "nat \<Rightarrow> table \<Rightarrow> bool" where
  "table_len l tb \<longleftrightarrow>
     length (begbal tb) = l \<and> length (ipmt tb) = l \<and> length (ppmt tb) = l \<and> length (rembal tb) = l"

section \<open>Shapes of the arguments of \<^verbatim>\<open>tvmm\<close>\<close>

text \<open>A shape that broadcasts to the shape \<open>out\<close>: a scalar, a length of 1, or \<open>out\<close> itself.\<close>

definition fits :: "shape \<Rightarrow> shape \<Rightarrow> bool" where
  "fits s out \<longleftrightarrow> s = Scalar \<or> s = Len 1 \<or> s = out"





section \<open>Lemmas on the schedule walk\<close>

lemma period_step_pos:
  assumes "0 < k" and "k < length (begbal tb)" and "k < length (ipmt tb)"
    and "k < length (ppmt tb)" and "k < length (rembal tb)"
  shows "begbal (period_step erate pmts tb k) = (begbal tb)[k := rembal tb ! (k - 1)]"
    and "ipmt (period_step erate pmts tb k) = (ipmt tb)[k := fmul (rembal tb ! (k - 1)) erate]"
    and "ppmt (period_step erate pmts tb k) =
           (ppmt tb)[k := fadd (pmts ! k) (fmul (rembal tb ! (k - 1)) erate)]"
    and "rembal (period_step erate pmts tb k) =
           (rembal tb)[k := fadd (rembal tb ! (k - 1))
                                (fadd (pmts ! k) (fmul (rembal tb ! (k - 1)) erate))]"
  using assms by (simp_all add: period_step_def Let_def)

lemma period_step_zero:
  shows "begbal (period_step erate pmts tb 0) = begbal tb"
    and "ipmt (period_step erate pmts tb 0) = ipmt tb"
    and "ppmt (period_step erate pmts tb 0) = (ppmt tb)[0 := pmts ! 0]"
    and "rembal (period_step erate pmts tb 0) = (rembal tb)[0 := fadd (begbal tb ! 0) (pmts ! 0)]"
  by (simp_all add: period_step_def Let_def)

lemma rows_ok_step:
  assumes ok: "rows_ok pval pmts erate n k tb" and kn: "k \<le> n"
  shows "rows_ok pval pmts erate n (Suc k) (period_step erate pmts tb k)"
proof (cases "k = 0")
  case True
  from ok have "length (ppmt tb) = n + 1" "length (rembal tb) = n + 1"
    by (simp_all add: rows_ok_def)
  with ok True show ?thesis
    by (simp add: rows_ok_def period_step_zero)
next
  case False
  then have k0: "0 < k" by simp
  from ok have len: "length (begbal tb) = n + 1" "length (ipmt tb) = n + 1"
      "length (ppmt tb) = n + 1" "length (rembal tb) = n + 1"
    and b0: "begbal tb ! 0 = pval"
    and r0: "rembal tb ! 0 = fadd pval (pmts ! 0)" "ppmt tb ! 0 = pmts ! 0"
    and old: "\<And>t. 1 \<le> t \<Longrightarrow> t < k \<Longrightarrow>
        begbal tb ! t = rembal tb ! (t - 1) \<and>
        ipmt tb ! t = fmul (begbal tb ! t) erate \<and>
        ppmt tb ! t = fadd (pmts ! t) (ipmt tb ! t) \<and>
        rembal tb ! t = fadd (begbal tb ! t) (ppmt tb ! t)"
    using k0 by (simp_all add: rows_ok_def)
  from kn len have lt: "k < length (begbal tb)" "k < length (ipmt tb)"
      "k < length (ppmt tb)" "k < length (rembal tb)"
    by simp_all
  note st = period_step_pos [OF k0 lt, of erate pmts]
  have new: "begbal (period_step erate pmts tb k) ! t = rembal (period_step erate pmts tb k) ! (t - 1) \<and>
        ipmt (period_step erate pmts tb k) ! t = fmul (begbal (period_step erate pmts tb k) ! t) erate \<and>
        ppmt (period_step erate pmts tb k) ! t
          = fadd (pmts ! t) (ipmt (period_step erate pmts tb k) ! t) \<and>
        rembal (period_step erate pmts tb k) ! t
          = fadd (begbal (period_step erate pmts tb k) ! t) (ppmt (period_step erate pmts tb k) ! t)"
    if t: "1 \<le> t" "t < Suc k" for t
  proof (cases "t = k")
    case True
    with k0 lt show ?thesis by (simp add: st)
  next
    case False
    with t have tk: "t < k" by simp
    then have "t \<noteq> k" "t - 1 \<noteq> k" by simp_all
    with old [OF t(1) tk] lt show ?thesis by (simp add: st)
  qed
  from k0 lt b0 r0 have z: "begbal (period_step erate pmts tb k) ! 0 = pval"
    "rembal (period_step erate pmts tb k) ! 0 = fadd pval (pmts ! 0)"
    "ppmt (period_step erate pmts tb k) ! 0 = pmts ! 0"
    by (simp_all add: st)
  from len have len': "length (begbal (period_step erate pmts tb k)) = n + 1"
    "length (ipmt (period_step erate pmts tb k)) = n + 1"
    "length (ppmt (period_step erate pmts tb k)) = n + 1"
    "length (rembal (period_step erate pmts tb k)) = n + 1"
    by (simp_all add: st)
  show ?thesis
    unfolding rows_ok_def using len' z new by blast
qed

lemma rows_ok_fold:
  assumes "rows_ok pval pmts erate n 0 tb" and "k \<le> n + 1"
  shows "rows_ok pval pmts erate n k (foldl (period_step erate pmts) tb [0..<k])"
  using assms(2)
proof (induction k)
  case 0
  with assms(1) show ?case by simp
next
  case (Suc k)
  then show ?case by (simp add: rows_ok_step)
qed

lemma rows_ok_schedule:
  "rows_ok pval pmts erate n (n + 1) (schedule pval pmts erate n)"
proof -
  have "rows_ok pval pmts erate n 0
          \<lparr>begbal = (replicate (n + 1) (Fin 0))[0 := pval], ipmt = replicate (n + 1) (Fin 0),
           ppmt = replicate (n + 1) (Fin 0), rembal = replicate (n + 1) (Fin 0)\<rparr>"
    by (simp add: rows_ok_def)
  from rows_ok_fold [OF this, of "n + 1"] show ?thesis
    by (simp add: schedule_def Let_def)
qed

lemma amortize_table_Inr:
  assumes "amortize_table np pval fval pmt nrate nper due pyr = Inr (res, tb, pmts)"
  shows "\<exists>n. nper_whole (r_nper res) = Inr (int n) \<and> (pyr = 0 \<longrightarrow> nrate = None) \<and>
             pmts = payments (r_pmt res) n due \<and>
             tb = schedule (r_pval res) pmts (erate_of (r_nrate res) pyr) n"
proof -
  from assms obtain x where x: "nper_whole (r_nper res) = Inr x" "0 \<le> x"
      "pyr = 0 \<longrightarrow> nrate = None"
      "pmts = payments (r_pmt res) (nat x) due"
      "tb = schedule (r_pval res) pmts (erate_of (r_nrate res) pyr) (nat x)"
    unfolding amortize_table_def Let_def
    by (auto split: if_splits sum.splits)
  from x(2) have "x = int (nat x)" by simp
  with x show ?thesis by metis
qed

lemma payments_length: "length (payments pmt n due) = n + 1"
  by (simp add: payments_def Let_def del: replicate.simps)

text \<open>The definitions that a run on concrete numbers unfolds.\<close>

lemmas run_defs =
  tvmm_def numnone_def periodic_rate_def annualize_def np_lift_def np_any_def on_finite_def
  numpy_doc_def with_when_def divides_by_zero_def
  pmt_kernel_def fv_kernel_def pv_kernel_def np_power_def is_whole_def annuity_fact_def
  np_div_def amortize_def amortize_table_def erate_of_def schedule_def payments_def
  period_step_def py_int_def upt_rec Let_def

section \<open>The over-determined call (C1)\<close>

text \<open>
  C1, as amended. When all five of \<^verbatim>\<open>pval\<close>, \<^verbatim>\<open>fval\<close>, \<^verbatim>\<open>pmt\<close>, \<^verbatim>\<open>nrate\<close>, \<^verbatim>\<open>nper\<close> are
  supplied, \<^verbatim>\<open>tvmm\<close> and \<^verbatim>\<open>amortize\<close> set \<^verbatim>\<open>pmt = None\<close>: the supplied payment is
  disregarded and the payment is recomputed by \<^verbatim>\<open>numpy.pmt\<close> from the supplied \<^verbatim>\<open>nrate\<close>
  and the three other values. The nominal rate is not recomputed.
\<close>

theorem overdetermined_recomputes_pmt:
  "tvmm np (Some pval) (Some fval) (Some pmt) (Some nrate) (Some nper) due pyr =
     (case periodic_rate nrate pyr of Inl e \<Rightarrow> Inl e
      | Inr rate \<Rightarrow> np_pmt np rate nper pval fval due)
   \<and> tvmm np (Some pval) (Some fval) (Some pmt) (Some nrate) (Some nper) due pyr =
       tvmm np (Some pval) (Some fval) None (Some nrate) (Some nper) due pyr
   \<and> amortize np (Some a) (Some b) (Some c) (Some d) (Some n) due p =
       amortize np (Some a) (Some b) None (Some d) (Some n) due p"
  by (simp add: tvmm_def numnone_def amortize_def amortize_table_def)

text \<open>
  The claim as stated fails: with all five supplied, the value returned follows the
  supplied \<^verbatim>\<open>nrate\<close> (10 then 20 percent) and is the payment that repays 100 in one period,
  whatever payment was supplied.
\<close>

theorem overdetermined_depends_on_nrate:
  "tvmm numpy_doc (Some (Num (Fin 100))) (Some (Num (Fin 0))) (Some (Num (Fin (- 50))))
     (Some (Num (Fin 10))) (Some (Num (Fin 1))) 0 (Num (Fin 1)) = Inr (Num (Fin (- 110)))
   \<and> tvmm numpy_doc (Some (Num (Fin 100))) (Some (Num (Fin 0))) (Some (Num (Fin (- 50))))
     (Some (Num (Fin 20))) (Some (Num (Fin 1))) 0 (Num (Fin 1)) = Inr (Num (Fin (- 120)))"
  by (simp add: run_defs)

section \<open>A payment of exactly zero (C8)\<close>

text \<open>
  C8. A call of \<^verbatim>\<open>tvmm\<close> or \<^verbatim>\<open>amortize\<close> with \<^verbatim>\<open>pmt\<close> equal to zero computes what the
  same call with \<^verbatim>\<open>pmt = 0.0000001\<close> computes: the same value or error for \<^verbatim>\<open>tvmm\<close>, the
  same resolved parameters, table and payments for \<^verbatim>\<open>amortize\<close>. This holds for every
  choice of the other arguments, so in particular when one other parameter is unset; with
  \<^verbatim>\<open>pval\<close> unset, for instance, \<^verbatim>\<open>numpy.pv\<close> receives the payment \<^verbatim>\<open>0.0000001\<close>.
\<close>

theorem zero_pmt_as_tiny_pmt:
  "tvmm np pval fval (Some (Num (Fin 0))) nrate nper due pyr =
     tvmm np pval fval (Some (Num (Fin (1 / 10 ^ 7)))) nrate nper due pyr
   \<and> amortize_table np a b (Some 0) d n due p =
       amortize_table np a b (Some (1 / 10 ^ 7)) d n due p
   \<and> amortize np a b (Some 0) d n due p = amortize np a b (Some (1 / 10 ^ 7)) d n due p
   \<and> tvmm np None (Some fv) (Some (Num (Fin 0))) (Some nr) (Some k) due pyr =
       (case periodic_rate nr pyr of Inl e \<Rightarrow> Inl e
        | Inr rate \<Rightarrow> np_pv np rate k fv (Num (Fin (1 / 10000000))) due)"
  by (simp add: tvmm_def numnone_def amortize_def amortize_table_def)

section \<open>The rows of the schedule (C3)\<close>

lemma run_one_period:
  "amortize_table numpy_doc (Some 100) (Some (- 50)) None (Some 10) (Some (PyInt 1)) 0 1 =
     Inr (\<lparr>r_pval = Fin 100, r_fval = Fin (- 50), r_pmt = Fin (- 60), r_nrate = Fin 10,
           r_nper = PyInt 1\<rparr>,
          \<lparr>begbal = [Fin 100, Fin 100], ipmt = [Fin 0, Fin 10], ppmt = [Fin 0, Fin (- 50)],
           rembal = [Fin 100, Fin 50]\<rparr>,
          [Fin 0, Fin (- 60)])"
  by (simp add: run_defs)

text \<open>
  C3. When \<^verbatim>\<open>amortize\<close> returns, with whole number of periods \<open>n\<close>, then for every period
  \<open>t\<close> from 1 to \<open>n\<close>: the beginning balance is the ending balance of the period before,
  the interest is the beginning balance times \<^verbatim>\<open>nrate/pyr/100\<close>, the principal is the
  payment plus the interest, and the ending balance is the beginning balance plus the
  principal. The returned tuple is (principal, interest, payment, ending balance).
\<close>

theorem amortize_rows:
  assumes "amortize_table np pval fval pmt nrate nper due pyr = Inr (res, tb, pmts)"
    and "nper_whole (r_nper res) = Inr n" and "1 \<le> t" and "int t \<le> n"
  shows "amortize np pval fval pmt nrate nper due pyr = Inr (ppmt tb, ipmt tb, pmts, rembal tb)
    \<and> begbal tb ! t = rembal tb ! (t - 1)
    \<and> ipmt tb ! t = fmul (begbal tb ! t) (fdivr (fdivr (r_nrate res) (of_int pyr)) 100)
    \<and> ppmt tb ! t = fadd (pmts ! t) (ipmt tb ! t)
    \<and> rembal tb ! t = fadd (begbal tb ! t) (ppmt tb ! t)"
proof -
  from amortize_table_Inr [OF assms(1)] assms(2) obtain m where
    m: "n = int m" "tb = schedule (r_pval res) pmts (erate_of (r_nrate res) pyr) m"
    by auto
  have "rows_ok (r_pval res) pmts (erate_of (r_nrate res) pyr) m (m + 1) tb"
    unfolding m(2) by (rule rows_ok_schedule)
  moreover have "t < m + 1" using assms(4) m(1) by simp
  ultimately show ?thesis using assms(1,3)
    by (simp add: rows_ok_def amortize_def erate_of_def)
qed

theorem amortize_rows_witness:
  "amortize numpy_doc (Some 100) (Some (- 50)) None (Some 10) (Some (PyInt 1)) 0 1 =
     Inr ([Fin 0, Fin (- 50)], [Fin 0, Fin 10], [Fin 0, Fin (- 60)], [Fin 100, Fin 50])
   \<and> [Fin 100, Fin 100] ! 1 = [Fin 100, Fin 50] ! (1 - 1)
   \<and> [Fin 0, Fin 10] ! 1 = fmul ([Fin 100, Fin 100] ! 1) (fdivr (fdivr (Fin 10) (of_int 1)) 100)
   \<and> [Fin 0, Fin (- 50)] ! 1 = fadd ([Fin 0, Fin (- 60)] ! 1) ([Fin 0, Fin 10] ! 1)
   \<and> [Fin 100, Fin 50] ! 1 = fadd ([Fin 100, Fin 100] ! 1) ([Fin 0, Fin (- 50)] ! 1)"
  using amortize_rows [OF run_one_period, of 1 1] by simp

section \<open>Rounding of the number of periods (C2)\<close>

lemma payments_nth:
  shows "payments pmt n 0 ! 0 = Fin 0"
    and "payments pmt n 1 ! n = Fin 0"
    and "1 \<le> n \<Longrightarrow> payments pmt n 1 ! 0 = pmt"
  by (simp_all add: payments_def Let_def nth_list_update del: replicate.simps)

lemma py_int_round:
  assumes "0 < x"
  shows "py_int (x + 9 / 10) = (if 1 / 10 \<le> frac x then \<lceil>x\<rceil> else \<lfloor>x\<rfloor>)"
proof -
  have fl: "of_int \<lfloor>x\<rfloor> \<le> x" "x < of_int \<lfloor>x\<rfloor> + 1" by linarith+
  show ?thesis
  proof (cases "1 / 10 \<le> frac x")
    case True
    then have f: "1 / 10 \<le> x - of_int \<lfloor>x\<rfloor>" unfolding frac_def .
    then have nz: "of_int \<lfloor>x\<rfloor> \<noteq> x" by linarith
    then have c: "\<lceil>x\<rceil> = \<lfloor>x\<rfloor> + 1" by (simp add: ceiling_altdef)
    from f fl have "\<lfloor>x + 9 / 10\<rfloor> = \<lfloor>x\<rfloor> + 1"
      by (intro floor_unique) (simp_all, linarith+)
    with assms True c show ?thesis by (simp add: py_int_def)
  next
    case False
    then have f: "x - of_int \<lfloor>x\<rfloor> < 1 / 10" unfolding frac_def by linarith
    with fl have "\<lfloor>x + 9 / 10\<rfloor> = \<lfloor>x\<rfloor>"
      by (intro floor_unique) linarith+
    with assms False show ?thesis by (simp add: py_int_def)
  qed
qed

text \<open>
  C2, as amended. When the resolved number of periods is a float \<open>x\<close> that is not whole,
  the schedule has \<^verbatim>\<open>int(x + 0.9)\<close> periods: the truncation toward zero of \<open>x + 0.9\<close>. For
  \<open>x > 0\<close> this is the ceiling of \<open>x\<close> when the fractional part of \<open>x\<close> is at least 0.1,
  and the floor of \<open>x\<close> when it is smaller. All four returned lists have that many entries
  plus one.
\<close>

theorem amortize_nper_rounding:
  assumes "amortize_table np pval fval pmt nrate nper due pyr = Inr (res, tb, pmts)"
    and "r_nper res = PyFloat (Fin x)"
  shows "of_int \<lfloor>x\<rfloor> \<noteq> x
    \<and> int (length (rembal tb)) = py_int (x + 9 / 10) + 1
    \<and> length (ppmt tb) = length (rembal tb) \<and> length (ipmt tb) = length (rembal tb)
    \<and> length pmts = length (rembal tb)
    \<and> (0 < x \<longrightarrow> py_int (x + 9 / 10) = (if 1 / 10 \<le> frac x then \<lceil>x\<rceil> else \<lfloor>x\<rfloor>))"
proof -
  from amortize_table_Inr [OF assms(1)] assms(2) obtain n where
    n: "nper_whole (PyFloat (Fin x)) = Inr (int n)" "pmts = payments (r_pmt res) n due"
       "tb = schedule (r_pval res) pmts (erate_of (r_nrate res) pyr) n"
    by auto
  from n(1) have w: "of_int (py_int x) \<noteq> x" "py_int (x + 9 / 10) = int n"
    by (simp_all split: if_splits)
  have nz: "of_int \<lfloor>x\<rfloor> \<noteq> x"
  proof
    assume "of_int \<lfloor>x\<rfloor> = x"
    then obtain k :: int where "x = of_int k" by metis
    with w(1) show False by (simp add: py_int_def split: if_splits)
  qed
  have "rows_ok (r_pval res) pmts (erate_of (r_nrate res) pyr) n (n + 1) tb"
    unfolding n(3) by (rule rows_ok_schedule)
  then have len: "length (rembal tb) = n + 1" "length (ppmt tb) = n + 1"
    "length (ipmt tb) = n + 1"
    by (simp_all add: rows_ok_def)
  have "length pmts = n + 1" unfolding n(2) by (rule payments_length)
  with nz len w(2) py_int_round [of x] show ?thesis by simp
qed

lemma run_fractional:
  "amortize_table numpy_doc (Some 100) None (Some (- 10)) (Some 0) (Some (PyFloat (Fin (41 / 20)))) 0 1
   = Inr (\<lparr>r_pval = Fin 100, r_fval = Fin (- (159 / 2)), r_pmt = Fin (- 10), r_nrate = Fin 0,
             r_nper = PyFloat (Fin (41 / 20))\<rparr>,
          \<lparr>begbal = [Fin 100, Fin 100, Fin 90], ipmt = [Fin 0, Fin 0, Fin 0],
             ppmt = [Fin 0, Fin (- 10), Fin (- 10)], rembal = [Fin 100, Fin 90, Fin 80]\<rparr>,
          [Fin 0, Fin (- 10), Fin (- 10)])"
  by (simp add: run_defs numeral_3_eq_3)

theorem amortize_nper_rounding_witness:
  "amortize_table numpy_doc (Some 100) None (Some (- 10)) (Some 0) (Some (PyFloat (Fin (41 / 20)))) 0 1
   = Inr (\<lparr>r_pval = Fin 100, r_fval = Fin (- (159 / 2)), r_pmt = Fin (- 10), r_nrate = Fin 0,
             r_nper = PyFloat (Fin (41 / 20))\<rparr>,
          \<lparr>begbal = [Fin 100, Fin 100, Fin 90], ipmt = [Fin 0, Fin 0, Fin 0],
             ppmt = [Fin 0, Fin (- 10), Fin (- 10)], rembal = [Fin 100, Fin 90, Fin 80]\<rparr>,
          [Fin 0, Fin (- 10), Fin (- 10)])
   \<and> int (length [Fin 100, Fin 90, Fin 80]) = py_int (41 / 20 + 9 / 10) + 1
   \<and> py_int (41 / 20 + 9 / 10) = \<lfloor>41 / 20 :: real\<rfloor>"
  using amortize_nper_rounding [OF run_fractional, of "41 / 20"] run_fractional
  by (simp add: frac_def)

text \<open>
  The claim as stated fails below a fractional part of 0.1: for 2.05 periods the schedule
  has rows 0 to 2, where the ceiling is 3.
\<close>

theorem amortize_nper_not_ceiling:
  "amortize numpy_doc (Some 100) None (Some (- 10)) (Some 0) (Some (PyFloat (Fin (41 / 20)))) 0 1
     = Inr ([Fin 0, Fin (- 10), Fin (- 10)], [Fin 0, Fin 0, Fin 0], [Fin 0, Fin (- 10), Fin (- 10)],
            [Fin 100, Fin 90, Fin 80])
   \<and> \<lceil>41 / 20 :: real\<rceil> = 3"
proof -
  have "\<lceil>41 / 20 :: real\<rceil> = 3" by (simp add: ceiling_unique)
  with run_fractional show ?thesis by (simp add: amortize_def)
qed

section \<open>The seed row and the timing of payments (C4)\<close>

text \<open>
  C4, as amended. When \<^verbatim>\<open>amortize\<close> returns, with whole number of periods \<open>n\<close>: under
  \<^verbatim>\<open>due = 0\<close> the payment of row 0 is zero and its ending balance is \<^verbatim>\<open>pval\<close>; under
  \<^verbatim>\<open>due = 1\<close> the payment of the final row \<open>n\<close> is zero and, when there is at least one
  period (\<open>n \<ge> 1\<close>), row 0 carries the first payment: its payment is \<^verbatim>\<open>pmt\<close> and its ending
  balance is \<^verbatim>\<open>pval + pmt\<close>.
\<close>

theorem amortize_seed_row:
  assumes "amortize_table np pval fval pmt nrate nper due pyr = Inr (res, tb, pmts)"
    and "nper_whole (r_nper res) = Inr n"
  shows "amortize np pval fval pmt nrate nper due pyr = Inr (ppmt tb, ipmt tb, pmts, rembal tb)
    \<and> (due = 0 \<longrightarrow> pmts ! 0 = Fin 0 \<and> rembal tb ! 0 = r_pval res)
    \<and> (due = 1 \<longrightarrow> pmts ! nat n = Fin 0
          \<and> (1 \<le> n \<longrightarrow> pmts ! 0 = r_pmt res
                \<and> rembal tb ! 0 = fadd (r_pval res) (r_pmt res)))"
proof -
  from amortize_table_Inr [OF assms(1)] assms(2) obtain m where
    m: "n = int m" "pmts = payments (r_pmt res) m due"
       "tb = schedule (r_pval res) pmts (erate_of (r_nrate res) pyr) m"
    by auto
  have "rows_ok (r_pval res) pmts (erate_of (r_nrate res) pyr) m (m + 1) tb"
    unfolding m(3) by (rule rows_ok_schedule)
  then have r0: "rembal tb ! 0 = fadd (r_pval res) (pmts ! 0)"
    by (simp add: rows_ok_def)
  have a: "amortize np pval fval pmt nrate nper due pyr = Inr (ppmt tb, ipmt tb, pmts, rembal tb)"
    using assms(1) by (simp add: amortize_def)
  have b: "pmts ! 0 = Fin 0" if "due = 0"
    using that m(2) by (simp add: payments_nth)
  have c: "pmts ! nat n = Fin 0" if "due = 1"
    using that m(1,2) by (simp add: payments_nth)
  have d: "pmts ! 0 = r_pmt res" if "due = 1" "1 \<le> n"
    using that m(1,2) by (simp add: payments_nth)
  have e: "fadd x (Fin 0) = x" for x by (cases x) simp_all
  from a b c d r0 show ?thesis by (simp add: e)
qed

lemma run_due:
  "amortize_table numpy_doc (Some 100) None (Some (- 10)) (Some 10) (Some (PyInt 1)) 1 1
   = Inr (\<lparr>r_pval = Fin 100, r_fval = Fin (- 99), r_pmt = Fin (- 10), r_nrate = Fin 10,
             r_nper = PyInt 1\<rparr>,
          \<lparr>begbal = [Fin 100, Fin 90], ipmt = [Fin 0, Fin 9], ppmt = [Fin (- 10), Fin 9],
             rembal = [Fin 90, Fin 99]\<rparr>,
          [Fin (- 10), Fin 0])"
  by (simp add: run_defs)

theorem amortize_seed_row_witness:
  "amortize numpy_doc (Some 100) None (Some (- 10)) (Some 10) (Some (PyInt 1)) 1 1
     = Inr ([Fin (- 10), Fin 9], [Fin 0, Fin 9], [Fin (- 10), Fin 0], [Fin 90, Fin 99])
   \<and> [Fin (- 10), Fin 0] ! nat 1 = Fin 0
   \<and> [Fin (- 10), Fin 0] ! 0 = Fin (- 10)
   \<and> [Fin 90, Fin 99] ! 0 = fadd (Fin 100) (Fin (- 10))
   \<and> amortize numpy_doc (Some 100) (Some (- 50)) None (Some 10) (Some (PyInt 1)) 0 1
     = Inr ([Fin 0, Fin (- 50)], [Fin 0, Fin 10], [Fin 0, Fin (- 60)], [Fin 100, Fin 50])
   \<and> [Fin 0, Fin (- 60)] ! 0 = Fin 0
   \<and> [Fin 100, Fin 50] ! 0 = Fin 100"
  using amortize_seed_row [OF run_due, of 1] amortize_seed_row [OF run_one_period, of 1]
  by simp

text \<open>
  The claim as stated fails for a schedule of no periods under \<^verbatim>\<open>due = 1\<close>: row 0 is also
  the final row, its payment is forced to zero (the payment is - 10) and its ending balance
  is \<^verbatim>\<open>pval\<close>.
\<close>

theorem amortize_due_no_periods:
  "amortize numpy_doc (Some 100) None (Some (- 10)) (Some 10) (Some (PyInt 0)) 1 1
     = Inr ([Fin 0], [Fin 0], [Fin 0], [Fin 100])"
  by (simp add: run_defs)

section \<open>\<^verbatim>\<open>after_tax_cashflow\<close> (C10)\<close>

lemma taxed_0: "taxed xs tax 0 = xs"
  by (simp add: taxed_def map_nth)

lemma taxed_length: "length (taxed xs tax k) = length xs"
  by (simp add: taxed_def)

lemma taxed_nth:
  "t < length xs \<Longrightarrow>
   taxed xs tax k ! t =
     (if t < k then (if xs ! t > 0 then xs ! t * (tax ! t / 100) else 0) else xs ! t)"
  by (simp add: taxed_def)

lemma tax_step_taxed:
  assumes "k < length xs" and "k < length tax"
  shows "tax_step tax (Inr (taxed xs tax k)) k = Inr (taxed xs tax (Suc k))"
proof -
  have "(taxed xs tax k)[k := v] ! t = (if t = k then v else taxed xs tax k ! t)"
    if "t < length xs" for t v
    using that assms(1) by (simp add: nth_list_update taxed_length)
  then have upd: "(taxed xs tax k)[k := (if xs ! k > 0 then xs ! k * (tax ! k / 100) else 0)]
      = taxed xs tax (Suc k)"
    using assms(1)
    by (intro nth_equalityI) (auto simp: taxed_length taxed_nth)
  from assms have "taxed xs tax k ! k = xs ! k" by (simp add: taxed_nth)
  with assms upd show ?thesis by (cases "xs ! k > 0") (simp_all add: tax_step_def)
qed

lemma tax_fold:
  assumes "length tax = length xs" and "k \<le> length xs"
  shows "foldl (tax_step tax) (Inr xs) [0..<k] = Inr (taxed xs tax k)"
  using assms(2)
proof (induction k)
  case 0
  show ?case by (simp add: taxed_0)
next
  case (Suc k)
  with assms(1) show ?case by (simp add: tax_step_taxed)
qed

text \<open>
  C10. For two series with equal time range (and so with as many entries),
  \<^verbatim>\<open>after_tax_cashflow\<close> returns the series of the same range whose entry at \<open>t\<close> is
  \<^verbatim>\<open>cflo[t] * tax_rate[t] / 100\<close> when \<^verbatim>\<open>cflo[t] > 0\<close> and 0 otherwise: the amount of the tax,
  not the cashflow net of tax.
\<close>

theorem after_tax_cashflow_entries:
  assumes "verify_eq_time_range cflo tax_rate = Inr ()"
    and "length (ts_data tax_rate) = length (ts_data cflo)"
  shows "after_tax_cashflow (Single cflo) (Single tax_rate) =
     Inr (Single (cflo\<lparr>ts_data :=
       map (\<lambda>t. if ts_data cflo ! t > 0 then ts_data cflo ! t * ts_data tax_rate ! t / 100 else 0)
         [0..<length (ts_data cflo)]\<rparr>))"
proof -
  let ?xs = "ts_data cflo" and ?tax = "ts_data tax_rate"
  have "tax_one cflo tax_rate = Inr (cflo\<lparr>ts_data := taxed ?xs ?tax (length ?xs)\<rparr>)"
    using assms by (simp add: tax_one_def tax_fold)
  moreover have "taxed ?xs ?tax (length ?xs) =
      map (\<lambda>t. if ?xs ! t > 0 then ?xs ! t * ?tax ! t / 100 else 0) [0..<length ?xs]"
    by (intro nth_equalityI) (simp_all add: taxed_length taxed_nth)
  ultimately show ?thesis
    by (simp add: after_tax_cashflow_def vars2list_def)
qed

theorem after_tax_cashflow_entries_witness:
  "verify_eq_time_range
     \<lparr>ts_start = [0], ts_end = [4], ts_pyr = 1, ts_data = [- 100, 100, 100, 100, 100]\<rparr>
     \<lparr>ts_start = [0], ts_end = [4], ts_pyr = 1, ts_data = [10, 10, 10, 10, 10]\<rparr> = Inr ()
   \<and> after_tax_cashflow
     (Single \<lparr>ts_start = [0], ts_end = [4], ts_pyr = 1, ts_data = [- 100, 100, 100, 100, 100]\<rparr>)
     (Single \<lparr>ts_start = [0], ts_end = [4], ts_pyr = 1, ts_data = [10, 10, 10, 10, 10]\<rparr>)
     = Inr (Single \<lparr>ts_start = [0], ts_end = [4], ts_pyr = 1, ts_data = [0, 10, 10, 10, 10]\<rparr>)"
  using after_tax_cashflow_entries
    [of "\<lparr>ts_start = [0], ts_end = [4], ts_pyr = 1, ts_data = [- 100, 100, 100, 100, 100]\<rparr>"
        "\<lparr>ts_start = [0], ts_end = [4], ts_pyr = 1, ts_data = [10, 10, 10, 10, 10]\<rparr>"]
  by (simp add: verify_eq_time_range_def upt_rec)

section \<open>Round trip of \<^verbatim>\<open>iconv\<close> (C7)\<close>

lemma np_lift_single2:
  "np_lift (on_finite k) [Lst [Fin a], Lst [Fin b]] =
     Inr (Lst [case k [a, b] of None \<Rightarrow> NonFin | Some y \<Rightarrow> Fin y])"
  by (simp add: np_lift_def on_finite_def)

lemma np_lift_single1:
  "np_lift (on_finite k) [Lst [Fin a]] =
     Inr (Lst [case k [a] of None \<Rightarrow> NonFin | Some y \<Rightarrow> Fin y])"
  by (simp add: np_lift_def on_finite_def)

lemma np_power_whole:
  assumes "0 < b"
  shows "np_power b (of_int p) = Some (b powi p)"
  using assms by (simp add: np_power_def is_whole_def)

lemma np_power_root:
  assumes "0 < b" and "0 < p"
  shows "np_power (b ^ nat p) (1 / of_int p) = Some b"
proof (cases "p = 1")
  case True
  with assms show ?thesis by (simp add: np_power_def is_whole_def)
next
  case False
  with assms have p2: "2 \<le> p" by simp
  then have "0 < 1 / real_of_int p" "1 / real_of_int p < 1" by simp_all
  then have "\<lfloor>1 / real_of_int p\<rfloor> = 0" by (intro floor_unique) simp_all
  with p2 have nw: "\<not> is_whole (1 / real_of_int p)" by (simp add: is_whole_def)
  have "b ^ nat p = b powr real (nat p)" using assms(1) by (simp add: powr_realpow)
  also have "\<dots> powr (1 / real_of_int p) = b powr (real (nat p) * (1 / real_of_int p))"
    by (simp add: powr_powr)
  also have "real (nat p) * (1 / real_of_int p) = 1" using assms(2) by simp
  finally have "(b ^ nat p) powr (1 / real_of_int p) = b" using assms(1) by simp
  moreover have "0 < b ^ nat p" using assms(1) by simp
  ultimately show ?thesis using nw assms by (simp add: np_power_def)
qed

text \<open>
  C7. For a nominal rate \<open>x > - 100\<close> and a whole number \<open>p > 0\<close> of periods per year,
  \<^verbatim>\<open>iconv(nrate=x, pyr=p)\<close> returns the effective rate \<open>100 * ((1 + x/p/100) ^ p - 1)\<close> and the
  periodic rate \<open>x / p\<close>, and \<^verbatim>\<open>iconv(erate=...)\<close> applied to that effective rate returns
  \<open>x\<close> and \<open>x / p\<close> again. Over the reals the round trip is exact.
\<close>

theorem iconv_round_trip:
  assumes "- 100 < x" and "0 < p"
  shows "iconv (Some (Num (Fin x))) None None (Num (Fin (of_int p))) =
       Inr (Num (Fin (100 * ((1 + x / of_int p / 100) ^ nat p - 1))), Num (Fin (x / of_int p)))
    \<and> iconv None (Some (Num (Fin (100 * ((1 + x / of_int p / 100) ^ nat p - 1))))) None
        (Num (Fin (of_int p))) =
       Inr (Num (Fin x), Num (Fin (x / of_int p)))"
proof -
  define b where "b = 1 + x / of_int p / 100"
  have p0: "real_of_int p \<noteq> 0" "1 \<le> real_of_int p" using assms(2) by simp_all
  have "- 100 < x / real_of_int p"
  proof (cases "0 \<le> x")
    case True
    then have "0 \<le> x / real_of_int p" using assms(2) by simp
    then show ?thesis by linarith
  next
    case False
    then have "x \<le> x / real_of_int p" using p0(2) by (simp add: field_simps mult_le_cancel_left2)
    with assms(1) show ?thesis by linarith
  qed
  then have b0: "0 < b" unfolding b_def by simp
  have pw: "np_power b (of_int p) = Some (b ^ nat p)"
    using np_power_whole [OF b0, of p] assms(2) by (simp add: power_int_def)
  have ml: "maxlen_of (Some (Num (Fin x))) None None (Num (Fin (of_int p))) = 1"
    "maxlen_of None (Some (Num y)) None (Num (Fin (of_int p))) = 1" for y
    by (simp_all add: maxlen_of_def)
  have fwd: "iconv (Some (Num (Fin x))) None None (Num (Fin (of_int p))) =
       Inr (Num (Fin (100 * (b ^ nat p - 1))), Num (Fin (x / of_int p)))"
    using p0 pw
    by (simp add: iconv_def ml np_lift_single2 np_div_def compound_def b_def)
  define E where "E = 100 * (b ^ nat p - 1)"
  have e: "1 + E / 100 = b ^ nat p" unfolding E_def by (simp add: right_diff_distrib diff_divide_distrib)
  have bx: "100 * b - 100 = x / of_int p" unfolding b_def by simp
  have c: "compound (Lst [Fin E]) (Lst [Fin (1 / of_int p)]) = Inr (Lst [Fin (x / of_int p)])"
    unfolding compound_def np_lift_single2
    by (simp add: e np_power_root [OF b0 assms(2)] bx del: of_int_1)
  have ml': "maxlen_of None (Some (Num (Fin E))) None (Num (Fin (of_int p))) = 1"
    by (simp add: maxlen_of_def)
  have bwd: "iconv None (Some (Num (Fin E))) None (Num (Fin (of_int p))) =
      Inr (Num (Fin x), Num (Fin (x / of_int p)))"
    using p0 by (simp add: iconv_def ml' np_lift_single2 np_lift_single1 np_div_def c)
  from fwd bwd show ?thesis unfolding E_def b_def by simp
qed

theorem iconv_round_trip_witness:
  "- 100 < (10 :: real) \<and> 0 < (12 :: int)
   \<and> iconv (Some (Num (Fin 10))) None None (Num (Fin (of_int 12))) =
       Inr (Num (Fin (100 * ((1 + 10 / of_int 12 / 100) ^ nat 12 - 1))), Num (Fin (10 / of_int 12)))
   \<and> iconv None (Some (Num (Fin (100 * ((1 + 10 / of_int 12 / 100) ^ nat 12 - 1))))) None
        (Num (Fin (of_int 12))) = Inr (Num (Fin 10), Num (Fin (10 / of_int 12)))"
  using iconv_round_trip [of 10 12] by simp

section \<open>The numpy routines as computed solve the annuity equation\<close>


lemma np_lift_nums2:
  "np_lift (on_finite k) [Num (Fin a), Num (Fin b)] =
     Inr (Num (case k [a, b] of None \<Rightarrow> NonFin | Some y \<Rightarrow> Fin y))"
  by (simp add: np_lift_def on_finite_def)

lemma periodic_rate_nums:
  "periodic_rate (Num (Fin r)) (Num (Fin p)) =
     Inr (Num (if p = 0 then NonFin else Fin (r / 100 / p)))"
  by (simp add: periodic_rate_def np_lift_nums2 np_div_def)







section \<open>The balance in closed form\<close>











section \<open>What \<^verbatim>\<open>amortize\<close> resolves\<close>









section \<open>Balance closure (C5)\<close>




section \<open>The schedule of negated values\<close>

lemma fneg_fadd: "fadd (fneg a) (fneg b) = fneg (fadd a b)"
  by (cases a; cases b) simp_all

lemma fneg_fmul: "fmul (fneg a) e = fneg (fmul a e)"
  by (cases a; cases e) simp_all

lemma payments_neg: "payments (fneg pmt) n due = map fneg (payments pmt n due)"
  by (simp add: payments_def Let_def map_update del: replicate.simps)

lemma neg_table_sel:
  "begbal (neg_table tb) = map fneg (begbal tb)"
  "ipmt (neg_table tb) = map fneg (ipmt tb)"
  "ppmt (neg_table tb) = map fneg (ppmt tb)"
  "rembal (neg_table tb) = map fneg (rembal tb)"
  by (simp_all add: neg_table_def)

lemma table_eqI:
  "begbal a = begbal b \<Longrightarrow> ipmt a = ipmt b \<Longrightarrow> ppmt a = ppmt b \<Longrightarrow> rembal a = rembal b
   \<Longrightarrow> a = b" for a b :: table
  by simp

lemma period_step_len:
  assumes "table_len l tb" and "k < l"
  shows "table_len l (period_step erate pmts tb k)"
proof (cases "k = 0")
  case True
  with assms show ?thesis by (simp add: table_len_def period_step_zero)
next
  case False
  then have k0: "0 < k" by simp
  from assms have lt: "k < length (begbal tb)" "k < length (ipmt tb)"
      "k < length (ppmt tb)" "k < length (rembal tb)"
    by (simp_all add: table_len_def)
  from assms(1) show ?thesis
    by (simp add: table_len_def period_step_pos [OF k0 lt])
qed

lemma period_step_neg:
  assumes "table_len l tb" and "k < l" and "k < length pmts"
  shows "period_step erate (map fneg pmts) (neg_table tb) k
           = neg_table (period_step erate pmts tb k)"
proof (cases "k = 0")
  case True
  from assms have "0 < length (begbal tb)" "0 < length pmts" using True
    by (simp_all add: table_len_def)
  then show ?thesis unfolding True
    by (intro table_eqI) (simp_all add: period_step_zero neg_table_sel map_update fneg_fadd)
next
  case False
  then have k0: "0 < k" by simp
  from assms have lt: "k < length (begbal tb)" "k < length (ipmt tb)"
      "k < length (ppmt tb)" "k < length (rembal tb)"
    by (simp_all add: table_len_def)
  then have lt': "k < length (begbal (neg_table tb))" "k < length (ipmt (neg_table tb))"
      "k < length (ppmt (neg_table tb))" "k < length (rembal (neg_table tb))"
    by (simp_all add: neg_table_sel)
  from lt k0 have km: "k - 1 < length (rembal tb)" by simp
  show ?thesis
    using assms(3) km
    by (intro table_eqI)
       (simp_all add: period_step_pos [OF k0 lt] period_step_pos [OF k0 lt'] neg_table_sel
          map_update fneg_fadd fneg_fmul)
qed

lemma fold_neg:
  assumes "table_len l tb" and "k \<le> l" and "l \<le> length pmts"
  shows "table_len l (foldl (period_step erate pmts) tb [0..<k]) \<and>
         foldl (period_step erate (map fneg pmts)) (neg_table tb) [0..<k]
           = neg_table (foldl (period_step erate pmts) tb [0..<k])"
  using assms(2)
proof (induction k)
  case 0
  with assms(1) show ?case by simp
next
  case (Suc k)
  then have k: "k < l" "k < length pmts" using assms(3) by simp_all
  from Suc have ih: "table_len l (foldl (period_step erate pmts) tb [0..<k])"
    "foldl (period_step erate (map fneg pmts)) (neg_table tb) [0..<k]
           = neg_table (foldl (period_step erate pmts) tb [0..<k])"
    by simp_all
  show ?case
    using period_step_len [OF ih(1) k(1)] period_step_neg [OF ih(1) k] ih(2)
    by simp
qed

lemma schedule_neg:
  assumes "length pmts = n + 1"
  shows "schedule (fneg pval) (map fneg pmts) erate n = neg_table (schedule pval pmts erate n)"
proof -
  let ?z = "replicate (n + 1) (Fin 0)"
  let ?tb0 = "\<lparr>begbal = ?z[0 := pval], ipmt = ?z, ppmt = ?z, rembal = ?z\<rparr>"
  have l: "table_len (n + 1) ?tb0" by (simp add: table_len_def)
  have z: "neg_table ?tb0 = \<lparr>begbal = ?z[0 := fneg pval], ipmt = ?z, ppmt = ?z, rembal = ?z\<rparr>"
    by (simp add: neg_table_def map_update del: replicate.simps)
  from fold_neg [OF l, of "n + 1" pmts erate] assms
  show ?thesis unfolding schedule_def Let_def z by simp
qed

section \<open>\<^verbatim>\<open>tvmm\<close> and the resolved parameters under negation\<close>

lemma as_num_neg:
  "as_num (neg_result r) = (case as_num r of Inl e \<Rightarrow> Inl e | Inr x \<Rightarrow> Inr (fneg x))"
  by (cases r rule: as_num.cases) (simp_all add: neg_result_def)

lemma tvmm_neg_pv:
  assumes "np_sign_symmetric np" and "pm \<noteq> 0"
  shows "tvmm np None (Some (Num (Fin (- f)))) (Some (Num (Fin (- pm)))) (Some (Num (Fin r)))
           (Some (Num k)) due (Num (Fin p))
       = neg_result (tvmm np None (Some (Num (Fin f))) (Some (Num (Fin pm))) (Some (Num (Fin r)))
           (Some (Num k)) due (Num (Fin p)))"
proof -
  have "np_pv np (Num a) (Num b) (Num (Fin (- x))) (Num (Fin (- y))) due
          = neg_result (np_pv np (Num a) (Num b) (Num (Fin x)) (Num (Fin y)) due)" for a b x y
    using assms(1) [unfolded np_sign_symmetric_def, rule_format, of a b "Fin x" "Fin y" due]
    by simp
  with assms(2) show ?thesis
    by (simp add: tvmm_def numnone_def periodic_rate_nums neg_result_def)
qed

lemma tvmm_neg_fv:
  assumes "np_sign_symmetric np" and "pm \<noteq> 0"
  shows "tvmm np (Some (Num (Fin (- v)))) None (Some (Num (Fin (- pm)))) (Some (Num (Fin r)))
           (Some (Num k)) due (Num (Fin p))
       = neg_result (tvmm np (Some (Num (Fin v))) None (Some (Num (Fin pm))) (Some (Num (Fin r)))
           (Some (Num k)) due (Num (Fin p)))"
proof -
  have "np_fv np (Num a) (Num b) (Num (Fin (- x))) (Num (Fin (- y))) due
          = neg_result (np_fv np (Num a) (Num b) (Num (Fin x)) (Num (Fin y)) due)" for a b x y
    using assms(1) [unfolded np_sign_symmetric_def, rule_format, of a b "Fin x" "Fin y" due]
    by simp
  with assms(2) show ?thesis
    by (simp add: tvmm_def numnone_def periodic_rate_nums neg_result_def)
qed

lemma tvmm_neg_pmt:
  assumes "np_sign_symmetric np"
  shows "tvmm np (Some (Num (Fin (- v)))) (Some (Num (Fin (- f)))) None (Some (Num (Fin r)))
           (Some (Num k)) due (Num (Fin p))
       = neg_result (tvmm np (Some (Num (Fin v))) (Some (Num (Fin f))) None (Some (Num (Fin r)))
           (Some (Num k)) due (Num (Fin p)))"
proof -
  have "np_pmt np (Num a) (Num b) (Num (Fin (- x))) (Num (Fin (- y))) due
          = neg_result (np_pmt np (Num a) (Num b) (Num (Fin x)) (Num (Fin y)) due)" for a b x y
    using assms(1) [unfolded np_sign_symmetric_def, rule_format, of a b "Fin x" "Fin y" due]
    by simp
  then show ?thesis
    by (simp add: tvmm_def numnone_def periodic_rate_nums neg_result_def)
qed

lemma tvmm_neg_nper:
  assumes "np_sign_symmetric np" and "pm \<noteq> 0"
  shows "tvmm np (Some (Num (Fin (- v)))) (Some (Num (Fin (- f)))) (Some (Num (Fin (- pm))))
           (Some (Num (Fin r))) None due (Num (Fin p))
       = tvmm np (Some (Num (Fin v))) (Some (Num (Fin f))) (Some (Num (Fin pm)))
           (Some (Num (Fin r))) None due (Num (Fin p))"
proof -
  have "np_nper np (Num a) (Num (Fin (- b))) (Num (Fin (- x))) (Num (Fin (- y))) due
          = np_nper np (Num a) (Num (Fin b)) (Num (Fin x)) (Num (Fin y)) due" for a b x y
    using assms(1) [unfolded np_sign_symmetric_def, rule_format, of a "Fin b" "Fin x" "Fin y" due]
    by simp
  with assms(2) show ?thesis
    by (simp add: tvmm_def numnone_def periodic_rate_nums)
qed

lemma tvmm_neg_rate:
  assumes "np_sign_symmetric np" and "pm \<noteq> 0"
  shows "tvmm np (Some (Num (Fin (- v)))) (Some (Num (Fin (- f)))) (Some (Num (Fin (- pm))))
           None (Some (Num k)) due (Num (Fin p))
       = tvmm np (Some (Num (Fin v))) (Some (Num (Fin f))) (Some (Num (Fin pm)))
           None (Some (Num k)) due (Num (Fin p))"
proof -
  have "np_rate np (Num (Fin (- a))) (Num b) (Num (Fin (- x))) (Num (Fin (- y))) due
          = np_rate np (Num (Fin a)) (Num b) (Num (Fin x)) (Num (Fin y)) due" for a b x y
    using assms(1) [unfolded np_sign_symmetric_def, rule_format, of "Fin a" b "Fin x" "Fin y" due]
    by simp
  with assms(2) show ?thesis
    by (simp add: tvmm_def numnone_def)
qed

lemma amortize_solve_neg:
  assumes np: "np_sign_symmetric np" and nz: "pmt \<noteq> Some 0"
  shows "amortize_solve np (map_option uminus pval) (map_option uminus fval)
           (map_option uminus pmt) nrate nper due pyr
      = (case amortize_solve np pval fval pmt nrate nper due pyr of
           Inl e \<Rightarrow> Inl e | Inr res \<Rightarrow> Inr (neg_resolved res))"
proof -
  note rw = tvmm_neg_pv [OF np] tvmm_neg_fv [OF np] tvmm_neg_pmt [OF np] tvmm_neg_nper [OF np]
    tvmm_neg_rate [OF np] as_num_neg neg_resolved_def
  show ?thesis
  proof (cases pmt)
    case None
    then show ?thesis
      by (cases pval; cases fval; cases nrate; cases nper) (simp_all add: rw split: sum.splits)
  next
    case (Some pm)
    with nz have "pm \<noteq> 0" by simp
    with Some show ?thesis
      by (cases pval; cases fval; cases nrate; cases nper) (simp_all add: rw split: sum.splits)
  qed
qed

section \<open>The numpy routines as computed are sign symmetric\<close>

lemma np_div_neg: "np_div (- a) b = map_option uminus (np_div a b)"
  "np_div (- a) (- b) = np_div a b"
  by (simp_all add: np_div_def)

lemma pv_kernel_neg:
  "pv_kernel rate nper (- fv) (- pmt) w = map_option uminus (pv_kernel rate nper fv pmt w)"
  by (cases "np_power (1 + rate) nper") (simp_all add: pv_kernel_def np_div_def field_simps)

lemma fv_kernel_neg:
  "fv_kernel rate nper (- pv) (- pmt) w = map_option uminus (fv_kernel rate nper pv pmt w)"
  by (cases "np_power (1 + rate) nper") (simp_all add: fv_kernel_def)

lemma pmt_kernel_neg:
  "pmt_kernel rate nper (- pv) (- fv) w = map_option uminus (pmt_kernel rate nper pv fv w)"
  by (cases "np_power (1 + rate) nper") (simp_all add: pmt_kernel_def np_div_def field_simps)

lemma nper_kernel_neg:
  "nper_kernel rate (- pv) (- fv) (- pmt) w = nper_kernel rate pv fv pmt w"
proof (cases "rate = 0")
  case True
  then show ?thesis by (simp add: nper_kernel_def np_div_def field_simps)
next
  case False
  define z where "z = pmt * (1 + rate * w) / rate"
  have z': "- pmt * (1 + rate * w) / rate = - z" by (simp add: z_def)
  have "np_div (- (- fv + z)) (- (pv + z)) = np_div (- fv + z) (pv + z)"
    by (rule np_div_neg(2))
  then have q: "np_div (- (- fv) + - z) (- pv + - z) = np_div (- fv + z) (pv + z)"
    by simp
  from False show ?thesis
    unfolding nper_kernel_def Let_def z' z_def [symmetric] q by simp
qed

lemma zero_rate_nper_neg: "np_div (x - b) (- y) = np_div (b - x) y"
  using np_div_neg(2) [of "b - x" y] by simp

lemma g_div_gp_neg: "g_div_gp r n (- p) (- x) (- y) w = g_div_gp r n p x y w"
proof -
  have a: "- y + t1 * - x + - p * (t1 - 1) * (r * w + 1) / r
      = - (y + t1 * x + p * (t1 - 1) * (r * w + 1) / r)" for t1
    by simp
  have b: "n * t2 * - x - - p * (t1 - 1) * (r * w + 1) / r\<^sup>2
       + n * - p * t2 * (r * w + 1) / r + - p * (t1 - 1) * w / r
      = - (n * t2 * x - p * (t1 - 1) * (r * w + 1) / r\<^sup>2
       + n * p * t2 * (r * w + 1) / r + p * (t1 - 1) * w / r)" for t1 t2
    by simp
  show ?thesis
    unfolding g_div_gp_def a b np_div_neg(2) ..
qed

lemma np_lift_args4: "np_lift k [Num a, Num b, Num c, Num d] = Inr (Num (k [a, b, c, d]))"
  by (simp add: np_lift_def)

lemma np_lift_args3: "np_lift k [Num a, Num b, Num c] = Inr (Num (k [a, b, c]))"
  by (simp add: np_lift_def)

lemma np_any_args2: "np_any c [Num a, Num b] = Inr (c [a, b])"
  by (simp add: np_any_def)

text \<open>A kernel that changes sign with its last two operands does so on floats.\<close>

lemma on_finite_neg:
  assumes "\<And>a b x y. k [a, b, - x, - y] = map_option uminus (k [a, b, x, y])"
  shows "on_finite k [a, b, fneg x, fneg y] = fneg (on_finite k [a, b, x, y])"
  by (cases a; cases b; cases x; cases y) (simp_all add: on_finite_def assms split: option.splits)

text \<open>A kernel that does not change with the sign of its monetary operands.\<close>

lemma on_finite_even4:
  assumes "\<And>a b x y. k [a, - b, - x, - y] = k [a, b, x, y]"
  shows "on_finite k [a, fneg b, fneg x, fneg y] = on_finite k [a, b, x, y]"
  by (cases a; cases b; cases x; cases y) (simp_all add: on_finite_def assms)

lemma on_finite_even3:
  assumes "\<And>x b y. k [- x, - b, - y] = k [x, b, y]"
  shows "on_finite k [fneg x, fneg b, fneg y] = on_finite k [x, b, y]"
  by (cases b; cases x; cases y) (simp_all add: on_finite_def assms)

lemma divides_by_zero_neg: "divides_by_zero [fneg y, a] = divides_by_zero [y, a]"
  by (cases y) (simp_all add: divides_by_zero_def)

text \<open>Operands that are numbers only select the kernel; the array operand decides the shape.\<close>

lemma np_lift_tail_nums:
  "np_lift k [rn, Num a, Num b, Num c, Num d] = np_lift (\<lambda>v. k [v ! 0, a, b, c, d]) [rn]"
  by (cases rn) (simp_all add: np_lift_def)

lemma newton_kernel_neg:
  "newton_kernel w [r, n, - p, - x, - y] = newton_kernel w [r, n, p, x, y]"
  by (simp add: newton_kernel_def g_div_gp_neg split: option.splits)

lemma on_finite_newton_neg:
  "on_finite (newton_kernel w) [r, n, fneg p, fneg x, fneg y]
     = on_finite (newton_kernel w) [r, n, p, x, y]"
  by (cases r; cases n; cases p; cases x; cases y) (simp_all add: on_finite_def newton_kernel_neg)

lemma newton_neg:
  "newton k rn (Num n) (Num (fneg p)) (Num (fneg x)) (Num (fneg y)) w
     = newton k rn (Num n) (Num p) (Num x) (Num y) w"
proof (induction k arbitrary: rn)
  case 0
  show ?case by simp
next
  case (Suc k)
  have "np_lift (on_finite (newton_kernel w)) [rn, Num n, Num (fneg p), Num (fneg x), Num (fneg y)]
      = np_lift (on_finite (newton_kernel w)) [rn, Num n, Num p, Num x, Num y]"
    unfolding np_lift_tail_nums on_finite_newton_neg ..
  with Suc show ?case by (simp split: sum.splits)
qed

lemma numpy_doc_sign_symmetric: "np_sign_symmetric numpy_doc"
  unfolding np_sign_symmetric_def
proof (intro allI conjI)
  fix a b x y :: flt and due :: int
  show "np_pv numpy_doc (Num a) (Num b) (Num (fneg x)) (Num (fneg y)) due
          = neg_result (np_pv numpy_doc (Num a) (Num b) (Num x) (Num y) due)"
    by (simp add: numpy_doc_def with_when_def np_lift_args4 pv_kernel_neg on_finite_neg
        neg_result_def)
  show "np_fv numpy_doc (Num a) (Num b) (Num (fneg x)) (Num (fneg y)) due
          = neg_result (np_fv numpy_doc (Num a) (Num b) (Num x) (Num y) due)"
    by (simp add: numpy_doc_def with_when_def np_lift_args4 fv_kernel_neg on_finite_neg
        neg_result_def)
  show "np_pmt numpy_doc (Num a) (Num b) (Num (fneg x)) (Num (fneg y)) due
          = neg_result (np_pmt numpy_doc (Num a) (Num b) (Num x) (Num y) due)"
    by (simp add: numpy_doc_def with_when_def np_lift_args4 pmt_kernel_neg on_finite_neg
        neg_result_def)
  show "np_nper numpy_doc (Num a) (Num (fneg b)) (Num (fneg x)) (Num (fneg y)) due
          = np_nper numpy_doc (Num a) (Num b) (Num x) (Num y) due"
    by (simp add: numpy_doc_def with_when_def np_lift_args4 np_lift_args3 np_any_args2
        divides_by_zero_neg on_finite_even4 on_finite_even3 nper_kernel_neg zero_rate_nper_neg)
  show "np_rate numpy_doc (Num (fneg a)) (Num b) (Num (fneg x)) (Num (fneg y)) due
          = np_rate numpy_doc (Num a) (Num b) (Num x) (Num y) due"
    by (simp add: numpy_doc_def with_when_def newton_neg)
qed

section \<open>Sign symmetry (C6)\<close>

lemma numnone_neg:
  "numnone (map_option f pval) (map_option g fval) nper (map_option h pmt) nrate
     = numnone pval fval nper pmt nrate"
  by (simp add: numnone_def)

lemma amortize_table_neg:
  assumes np: "np_sign_symmetric np"
    and nz: "pmt \<noteq> Some 0 \<or> numnone pval fval nper pmt nrate = 0"
  shows "amortize_table np (map_option uminus pval) (map_option uminus fval)
           (map_option uminus pmt) nrate nper due pyr
      = (case amortize_table np pval fval pmt nrate nper due pyr of
           Inl e \<Rightarrow> Inl e
         | Inr (res, tb, pmts) \<Rightarrow> Inr (neg_resolved res, neg_table tb, map fneg pmts))"
proof (cases "numnone pval fval nper pmt nrate > 1")
  case True
  then show ?thesis by (simp add: amortize_table_def numnone_neg)
next
  case False
  define pmt1 where "pmt1 = (if numnone pval fval nper pmt nrate = 0 then None else pmt)"
  from nz have p1: "pmt1 \<noteq> Some 0" by (auto simp: pmt1_def)
  then have p1': "map_option uminus pmt1 \<noteq> Some 0" by (cases pmt1) simp_all
  have p1n: "(if numnone pval fval nper pmt nrate = 0 then None else map_option uminus pmt)
      = map_option uminus pmt1"
    by (simp add: pmt1_def)
  define zd where "zd \<longleftrightarrow> pyr = 0 \<and> nrate \<noteq> None"
  note sol = amortize_solve_neg [OF np p1, of pval fval nrate nper due pyr]
  have l: "amortize_table np (map_option uminus pval) (map_option uminus fval)
           (map_option uminus pmt) nrate nper due pyr
      = (case amortize_solve np (map_option uminus pval) (map_option uminus fval)
                (map_option uminus pmt1) nrate nper due pyr of
             Inl e \<Rightarrow> Inl e
           | Inr res \<Rightarrow>
               if zd then Inl ZeroDivisionError
               else
                 case nper_whole (r_nper res) of
                      Inl e \<Rightarrow> Inl e
                    | Inr n \<Rightarrow>
                        if n < 0 then Inl IndexError
                        else Inr (res, schedule (r_pval res) (payments (r_pmt res) (nat n) due)
                                    (erate_of (r_nrate res) pyr) (nat n),
                                  payments (r_pmt res) (nat n) due))"
    using False p1' unfolding amortize_table_def Let_def zd_def
    by (simp add: numnone_neg p1n del: amortize_solve.simps)
  have r: "amortize_table np pval fval pmt nrate nper due pyr
      = (case amortize_solve np pval fval pmt1 nrate nper due pyr of
             Inl e \<Rightarrow> Inl e
           | Inr res \<Rightarrow>
               if zd then Inl ZeroDivisionError
               else
                 case nper_whole (r_nper res) of
                      Inl e \<Rightarrow> Inl e
                    | Inr n \<Rightarrow>
                        if n < 0 then Inl IndexError
                        else Inr (res, schedule (r_pval res) (payments (r_pmt res) (nat n) due)
                                    (erate_of (r_nrate res) pyr) (nat n),
                                  payments (r_pmt res) (nat n) due))"
    using False p1 unfolding amortize_table_def Let_def zd_def
    by (simp add: pmt1_def [symmetric] del: amortize_solve.simps)
  show ?thesis
  proof (cases "amortize_solve np pval fval pmt1 nrate nper due pyr")
    case (Inl e)
    with sol show ?thesis unfolding l r by simp
  next
    case (Inr res)
    note slv = this
    with sol have sn: "amortize_solve np (map_option uminus pval) (map_option uminus fval)
                (map_option uminus pmt1) nrate nper due pyr = Inr (neg_resolved res)"
      by simp
    have sel: "r_pval (neg_resolved res) = fneg (r_pval res)"
      "r_pmt (neg_resolved res) = fneg (r_pmt res)"
      "r_nrate (neg_resolved res) = r_nrate res" "r_nper (neg_resolved res) = r_nper res"
      by (simp_all add: neg_resolved_def)
    show ?thesis
    proof (cases zd)
      case True
      then show ?thesis unfolding l r sn slv by simp
    next
      case pyr: False
      show ?thesis
      proof (cases "nper_whole (r_nper res)")
        case (Inl e)
        with pyr show ?thesis unfolding l r sn slv
          by (simp add: sel)
      next
        case n: (Inr n)
        have "schedule (fneg (r_pval res)) (map fneg (payments (r_pmt res) (nat n) due))
                 (erate_of (r_nrate res) pyr) (nat n)
              = neg_table (schedule (r_pval res) (payments (r_pmt res) (nat n) due)
                 (erate_of (r_nrate res) pyr) (nat n))"
          by (rule schedule_neg) (rule payments_length)
        with pyr n show ?thesis
          unfolding l r sn slv
          by (simp add: sel payments_neg)
      qed
    qed
  qed
qed

text \<open>
  C6, as amended. Let the numpy routines, on numbers, change sign with their monetary
  arguments (\<^verbatim>\<open>pv\<close>, \<^verbatim>\<open>fv\<close>, \<^verbatim>\<open>pmt\<close>) or not change (\<^verbatim>\<open>nper\<close>, \<^verbatim>\<open>rate\<close>). If the supplied
  \<^verbatim>\<open>pmt\<close> is not exactly zero, or all five parameters are supplied (the payment is then
  recomputed), negating every supplied one of \<^verbatim>\<open>pval\<close>, \<^verbatim>\<open>fval\<close>, \<^verbatim>\<open>pmt\<close> negates every entry
  of the four returned lists, and an error stays the same error.
\<close>

theorem amortize_sign_symmetry:
  assumes "np_sign_symmetric np"
    and "pmt \<noteq> Some 0 \<or> numnone pval fval nper pmt nrate = 0"
  shows "amortize np (map_option uminus pval) (map_option uminus fval)
           (map_option uminus pmt) nrate nper due pyr
      = neg_lists (amortize np pval fval pmt nrate nper due pyr)"
  unfolding amortize_def amortize_table_neg [OF assms]
  by (simp add: neg_lists_def neg_table_def split: sum.splits)

theorem amortize_sign_symmetry_witness:
  "Some (- 10 :: real) \<noteq> Some 0
   \<and> amortize numpy_doc (Some 100) None (Some (- 10)) (Some 10) (Some (PyInt 1)) 1 1
       = Inr ([Fin (- 10), Fin 9], [Fin 0, Fin 9], [Fin (- 10), Fin 0], [Fin 90, Fin 99])
   \<and> amortize numpy_doc (Some (- 100)) None (Some 10) (Some 10) (Some (PyInt 1)) 1 1
       = Inr ([Fin 10, Fin (- 9)], [Fin 0, Fin (- 9)], [Fin 10, Fin 0], [Fin (- 90), Fin (- 99)])"
  using amortize_sign_symmetry [OF numpy_doc_sign_symmetric,
      of "Some (- 10)" "Some 100" None "Some (PyInt 1)" "Some 10" 1 1] run_due
  by (simp add: amortize_def neg_lists_def)

lemma run_zero_pmt:
  "amortize numpy_doc (Some 100) None (Some 0) (Some 10) (Some (PyInt 1)) 0 1
     = Inr ([Fin 0, Fin (1 / 10 ^ 7 + 10)], [Fin 0, Fin 10], [Fin 0, Fin (1 / 10 ^ 7)],
            [Fin 100, Fin (110 + 1 / 10 ^ 7)])"
  by (simp add: run_defs)

lemma run_zero_pmt_neg:
  "amortize numpy_doc (Some (- 100)) None (Some (- 0)) (Some 10) (Some (PyInt 1)) 0 1
     = Inr ([Fin 0, Fin (1 / 10 ^ 7 - 10)], [Fin 0, Fin (- 10)], [Fin 0, Fin (1 / 10 ^ 7)],
            [Fin (- 100), Fin (1 / 10 ^ 7 - 110)])"
  by (simp add: run_defs)

text \<open>
  The claim as stated fails for a supplied payment of exactly zero: zero and its negation
  are both replaced by \<^verbatim>\<open>0.0000001\<close>, so the payment entries keep their sign.
\<close>

theorem amortize_zero_pmt_not_symmetric:
  "amortize numpy_doc (Some (- 100)) None (Some (- 0)) (Some 10) (Some (PyInt 1)) 0 1
     = Inr ([Fin 0, Fin (1 / 10 ^ 7 - 10)], [Fin 0, Fin (- 10)], [Fin 0, Fin (1 / 10 ^ 7)],
            [Fin (- 100), Fin (1 / 10 ^ 7 - 110)])
   \<and> neg_lists (amortize numpy_doc (Some 100) None (Some 0) (Some 10) (Some (PyInt 1)) 0 1)
     = Inr ([Fin 0, Fin (- (1 / 10 ^ 7) - 10)], [Fin 0, Fin (- 10)], [Fin 0, Fin (- (1 / 10 ^ 7))],
            [Fin (- 100), Fin (- 110 - 1 / 10 ^ 7)])
   \<and> amortize numpy_doc (Some (- 100)) None (Some (- 0)) (Some 10) (Some (PyInt 1)) 0 1
     \<noteq> neg_lists (amortize numpy_doc (Some 100) None (Some 0) (Some 10) (Some (PyInt 1)) 0 1)"
  unfolding run_zero_pmt run_zero_pmt_neg by (simp add: neg_lists_def)

section \<open>Broadcasting in \<^verbatim>\<open>tvmm\<close>\<close>




lemma fits_refl: "fits s s"
  by (simp add: fits_def)


















section \<open>Arguments that broadcast\<close>









section \<open>Lists of unequal lengths (C9)\<close>














end
